theory Spec2Isabelle
  imports Complex_Main "HOL-Library.Sublist"
begin

section \<open>Strings\<close>

text \<open>
  Text that the program inspects character by character (subtitle files, transcripts,
  titles, summaries) is a JavaScript string: a sequence of UTF-16 code units, here natural
  numbers. Identifiers, paths, commands and diagnostic messages are ASCII and are written as
  HOL strings.
\<close>

type_synonym jsstring = "nat list"

definition ascii :: "string \<Rightarrow> jsstring" where
  "ascii s = map of_char s"

text \<open>\<^verbatim>\<open>String.prototype.startsWith\<close> and \<^verbatim>\<open>String.prototype.includes\<close>.\<close>

fun startsWith :: "'a list \<Rightarrow> 'a list \<Rightarrow> bool" where
  "startsWith s [] = True"
| "startsWith [] (p # ps) = False"
| "startsWith (c # cs) (p # ps) = (c = p \<and> startsWith cs ps)"

fun str_includes :: "'a list \<Rightarrow> 'a list \<Rightarrow> bool" where
  "str_includes [] pat = startsWith [] pat"
| "str_includes (c # cs) pat = (startsWith (c # cs) pat \<or> str_includes cs pat)"

text \<open>
  ECMAScript line terminators (LF, CR, LS, PS) and white space. \<^verbatim>\<open>trim\<close> removes both
  kinds from the two ends of a string; the regular expression atom \<^verbatim>\<open>.\<close> matches every
  code unit that is not a line terminator.
\<close>

definition is_line_terminator :: "nat \<Rightarrow> bool" where
  "is_line_terminator c = (c = 10 \<or> c = 13 \<or> c = 8232 \<or> c = 8233)"

definition is_white_space :: "nat \<Rightarrow> bool" where
  "is_white_space c =
     (c = 9 \<or> c = 11 \<or> c = 12 \<or> c = 32 \<or> c = 160 \<or> c = 5760 \<or>
      (8192 \<le> c \<and> c \<le> 8202) \<or> c = 8239 \<or> c = 8287 \<or> c = 12288 \<or> c = 65279)"

definition is_trimmed_char :: "nat \<Rightarrow> bool" where
  "is_trimmed_char c = (is_white_space c \<or> is_line_terminator c)"

definition trim :: "jsstring \<Rightarrow> jsstring" where
  "trim s = rev (dropWhile is_trimmed_char (rev (dropWhile is_trimmed_char s)))"

text \<open>\<^verbatim>\<open>/^\d+$/.test(s)\<close>: a non-empty run of the digits 0 to 9.\<close>

definition is_digit :: "nat \<Rightarrow> bool" where
  "is_digit c = (48 \<le> c \<and> c \<le> 57)"

definition all_digits :: "jsstring \<Rightarrow> bool" where
  "all_digits s = (s \<noteq> [] \<and> list_all is_digit s)"

text \<open>
  \<^verbatim>\<open>content.split(/\r?\n/)\<close>: a line ends at LF or at CR LF; a CR that no LF follows
  stays inside its line. The empty string splits into one empty line.
\<close>

fun push_char :: "nat \<Rightarrow> jsstring list \<Rightarrow> jsstring list" where
  "push_char c [] = [[c]]"
| "push_char c (l # ls) = (c # l) # ls"

fun split_lines :: "jsstring \<Rightarrow> jsstring list" where
  "split_lines [] = [[]]"
| "split_lines [c] = (if c = 10 then [[], []] else [[c]])"
| "split_lines (c # d # cs) =
     (if c = 10 then [] # split_lines (d # cs)
      else if c = 13 \<and> d = 10 then [] # split_lines cs
      else push_char c (split_lines (d # cs)))"

text \<open>
  \<^verbatim>\<open>s.replace(/<[^>]*>/g, '')\<close>: scanning from the left, an opening angle bracket that
  has a closing one somewhere after it is removed together with everything up to the
  first closing one; the scan goes on behind the match.
\<close>

definition LT_SIGN :: nat where "LT_SIGN = 60"
definition GT_SIGN :: nat where "GT_SIGN = 62"
definition LBRACKET :: nat where "LBRACKET = 91"
definition RBRACKET :: nat where "RBRACKET = 93"
definition SPACE :: nat where "SPACE = 32"

fun after_gt :: "jsstring \<Rightarrow> jsstring option" where
  "after_gt [] = None"
| "after_gt (c # cs) = (if c = GT_SIGN then Some cs else after_gt cs)"

function strip_tags :: "jsstring \<Rightarrow> jsstring" where
  "strip_tags [] = []"
| "strip_tags (c # cs) =
     (if c = LT_SIGN then
        (case after_gt cs of
           Some r \<Rightarrow> strip_tags r
         | None \<Rightarrow> c # strip_tags cs)
      else c # strip_tags cs)"
  by pat_completeness auto
termination
proof (relation "measure length")
  fix c :: nat and cs r :: jsstring
  assume "after_gt cs = Some r"
  then have "length r < Suc (length cs)"
    by (induction cs) (auto split: if_splits)
  then show "(r, c # cs) \<in> measure length" by simp
qed auto

text \<open>
  \<^verbatim>\<open>s.replace(/\[.*?\]/g, '')\<close>: an opening square bracket is removed together with
  everything up to the first closing one, unless a line terminator or the end of the
  string comes first; then the bracket stays and the scan goes on behind it.
\<close>

fun after_rbracket :: "jsstring \<Rightarrow> jsstring option" where
  "after_rbracket [] = None"
| "after_rbracket (c # cs) =
     (if c = RBRACKET then Some cs
      else if is_line_terminator c then None
      else after_rbracket cs)"

function strip_brackets :: "jsstring \<Rightarrow> jsstring" where
  "strip_brackets [] = []"
| "strip_brackets (c # cs) =
     (if c = LBRACKET then
        (case after_rbracket cs of
           Some r \<Rightarrow> strip_brackets r
         | None \<Rightarrow> c # strip_brackets cs)
      else c # strip_brackets cs)"
  by pat_completeness auto
termination
proof (relation "measure length")
  fix c :: nat and cs r :: jsstring
  assume "after_rbracket cs = Some r"
  then have "length r < Suc (length cs)"
    by (induction cs) (auto split: if_splits)
  then show "(r, c # cs) \<in> measure length" by simp
qed auto

text \<open>
  \<^verbatim>\<open>[...new Set(xs)]\<close>: a set keeps its elements in insertion order, and inserting an
  element it already holds changes nothing.
\<close>

definition set_add :: "'a list \<Rightarrow> 'a \<Rightarrow> 'a list" where
  "set_add seen x = (if x \<in> set seen then seen else seen @ [x])"

definition new_Set :: "'a list \<Rightarrow> 'a list" where
  "new_Set xs = foldl set_add [] xs"

text \<open>\<^verbatim>\<open>lines.join(' ')\<close>.\<close>

fun join_space :: "jsstring list \<Rightarrow> jsstring" where
  "join_space [] = []"
| "join_space [x] = x"
| "join_space (x # y # ys) = x @ SPACE # join_space (y # ys)"

section \<open>Cleaning a subtitle file\<close>

text \<open>The loop body of \<^verbatim>\<open>downloadAndCleanYtDlpTranscript\<close>: which trimmed lines are skipped.\<close>

definition skipped_line :: "jsstring \<Rightarrow> bool" where
  "skipped_line t =
     (t = [] \<or>
      startsWith t (ascii ''WEBVTT'') \<or>
      startsWith t (ascii ''Kind:'') \<or>
      startsWith t (ascii ''Language:'') \<or>
      str_includes t (ascii ''-->'') \<or>
      all_digits t)"

definition clean_line :: "jsstring \<Rightarrow> jsstring" where
  "clean_line t = trim (strip_brackets (strip_tags t))"

fun collect_text :: "jsstring list \<Rightarrow> jsstring list \<Rightarrow> jsstring list" where
  "collect_text textLines [] = textLines"
| "collect_text textLines (line # lines) =
     (let trimmedLine = trim line in
      if skipped_line trimmedLine then collect_text textLines lines
      else
        (let cleanLine = clean_line trimmedLine in
         if cleanLine \<noteq> [] then collect_text (textLines @ [cleanLine]) lines
         else collect_text textLines lines))"

definition text_lines :: "jsstring \<Rightarrow> jsstring list" where
  "text_lines vttContent = collect_text [] (split_lines vttContent)"

definition full_paragraph :: "jsstring \<Rightarrow> jsstring" where
  "full_paragraph vttContent = join_space (new_Set (text_lines vttContent))"

definition cleaned_transcript :: "jsstring \<Rightarrow> jsstring option" where
  "cleaned_transcript vttContent =
     (let fullParagraph = full_paragraph vttContent in
      if length fullParagraph > 0 then Some fullParagraph else None)"

section \<open>The world outside the program\<close>

text \<open>
  A value thrown by a library call or by the program: an \<^verbatim>\<open>Error\<close> object with its message
  and, for a failed child process, the captured standard error; or some other thrown value
  (for which \<^verbatim>\<open>instanceof Error\<close> is false and which has no such fields).
\<close>

datatype thrown = Error (message: string) (stderr: "string option") | NonError

type_synonym path = string
type_synonym content = "nat list"

text \<open>
  \<^verbatim>\<open>path.join(a, b)\<close> for plain segments; Node's normalisation of segments such as
  \<^verbatim>\<open>..\<close> is not modelled.
\<close>

definition path_join :: "path \<Rightarrow> string \<Rightarrow> path" where
  "path_join a b = a @ ''/'' @ b"

text \<open>The console messages of the program, one constructor for each message.\<close>

datatype log_msg =
    StartingYtDlpDownload
  | DownloadCommandFinished
  | ReadingAndCleaningFile path
  | CaptionsExtracted
  | CaptionsEmptyOrUnparseable
  | YtDlpMethodError thrown
  | TipYtDlpNotInstalled
  | CleanedUpTemporaryFile path
  | CouldNotDeleteTemporaryFile path thrown
  | AudioDownloadComplete
  | DownloadStreamError thrown
  | AudioStreamError thrown
  | CouldNotFetchMetadata thrown
  | FallingBackToDeepgram
  | FetchingVideoMetadata
  | DownloadingVideoAudio
  | TranscribingWithDeepgram
  | TranscribedWithDeepgram
  | ErrorInExtractTranscript thrown
  | TipYouTubeApiChanges
  | TipRateLimiting
  | GeminiKeyNotSet
  | GeminiSummaryFailed thrown

text \<open>Every call that leaves the program, in the order the program makes them.\<close>

datatype event =
    Exec string
  | ReadFile path
  | ExistsSync path
  | UnlinkSync path
  | MkdirSync path
  | YtdlGetInfo string
  | YtdlChooseFormat
  | CreateWriteStream path
  | YtdlDownload string
  | DestroyDownloadStream
  | DestroyAudioStream
  | ReadFileSync path
  | DeepgramCreateClient string
  | DeepgramTranscribeFile content
  | NewGoogleGenerativeAI string
  | GetGenerativeModel string
  | GenerateContent jsstring
  | Console log_msg

text \<open>
  The state the program changes: the files on disk, whether the working directory
  exists, the calls made so far, and the write streams that have been created but have not
  opened their file yet. \<^verbatim>\<open>fs.createWriteStream\<close> opens its file asynchronously: the file
  is not on disk before the event loop has turned, whatever the program does meanwhile.
\<close>

record state =
  files :: "path \<rightharpoonup> content"
  transcripts_dir :: bool
  trace :: "event list"
  still_opening :: "path list"

definition emit :: "event \<Rightarrow> state \<Rightarrow> state" where
  "emit e s = s\<lparr>trace := trace s @ [e]\<rparr>"

record video_details =
  vd_title :: jsstring
  vd_author_name :: jsstring
  vd_lengthSeconds :: jsstring

text \<open>
  How the audio download ends, by the first thing that happens to it:
  \<^verbatim>\<open>createWriteStream\<close> or \<^verbatim>\<open>ytdl(...)\<close> throws, the download stream ends or fails, the
  write stream fails, or none of these within five minutes, and the timer fires.
\<close>

datatype download_outcome =
    CreateWriteStreamThrows thrown
  | YtdlThrows thrown
  | DownloadEnds
  | DownloadFails thrown
  | WriteFails thrown
  | TimerFires

text \<open>The answer of the speech-to-text service, as far as the program reads it.\<close>

datatype js_speaker = SpeakerNumber nat | SpeakerUndefined | SpeakerNull

record dg_alternative =
  alt_transcript :: "jsstring option"
  alt_confidence :: "real option"

record dg_results =
  channels :: "dg_alternative list option list option"
  utterances :: "js_speaker list option"

record dg_reply =
  reply_result :: "dg_results option option"
  reply_error :: "string option"

text \<open>
  What the environment and the outside services do in one run; the libraries behind them
  (the subtitle tool, the file system, the video platform client, the speech-to-text
  client) are not part of the program, so their behaviour is a parameter. Each call is
  made at most once in a run, apart from the deletion of files, which depends on the path.
  \<^item> \<open>env_DEEPGRAM_API_KEY\<close>: the environment variable, \<open>None\<close> when it is not set;
  \<^item> \<open>ytdlp_fault\<close>: the error with which the subtitle tool fails, if it does;
    \<open>ytdlp_output\<close>: the subtitle file it writes, if it writes one;
  \<^item> \<open>readFile_fault\<close>, \<open>readFileSync_fault\<close>: the error of reading a file that exists
    (a file that does not exist gives \<open>ENOENT\<close>);
  \<^item> \<open>unlink_fault\<close>: the error with which the deletion of a path fails, if it does;
  \<^item> \<open>getInfo_result\<close>, \<open>chooseFormat_result\<close>: what the video platform client
    answers or throws; a format is \<open>True\<close>, no format \<open>False\<close>;
  \<^item> \<open>createClient_fault\<close>, \<open>mkdir_fault\<close>: the error of creating the speech-to-text
    client or the working directory, if there is one;
  \<^item> \<open>download_outcome\<close>, \<open>download_file\<close>: how the audio download ends and what
    the audio file holds once the write stream has opened it and the download has ended
    (\<open>None\<close>: the write stream cannot open the file);
  \<^item> \<open>transcribe_result\<close>: what the speech-to-text call answers or throws.
\<close>

record world =
  env_DEEPGRAM_API_KEY :: "string option"
  ytdlp_fault :: "thrown option"
  ytdlp_output :: "content option"
  readFile_fault :: "thrown option"
  unlink_fault :: "path \<Rightarrow> thrown option"
  getInfo_result :: "thrown + video_details"
  createClient_fault :: "thrown option"
  mkdir_fault :: "thrown option"
  chooseFormat_result :: "thrown + bool"
  download_outcome :: download_outcome
  download_file :: "content option"
  readFileSync_fault :: "thrown option"
  transcribe_result :: "thrown + dg_reply"

definition ENOENT :: thrown where
  "ENOENT = Error ''ENOENT: no such file or directory'' None"

definition read_file :: "thrown option \<Rightarrow> state \<Rightarrow> path \<Rightarrow> thrown + content" where
  "read_file fault s p =
     (case files s p of
        None \<Rightarrow> Inl ENOENT
      | Some c \<Rightarrow> (case fault of Some e \<Rightarrow> Inl e | None \<Rightarrow> Inr c))"

section \<open>The caption method\<close>

text \<open>
  \<^verbatim>\<open>safeDeleteFile\<close>: the file is unlinked when it exists; a failure of the unlinking is
  caught and reported as a warning.
\<close>

definition safeDeleteFile :: "world \<Rightarrow> path \<Rightarrow> state \<Rightarrow> state" where
  "safeDeleteFile w filePath s =
     (let s1 = emit (ExistsSync filePath) s in
      if files s1 filePath = None then s1
      else
        (let s2 = emit (UnlinkSync filePath) s1 in
         case unlink_fault w filePath of
           None \<Rightarrow>
             emit (Console (CleanedUpTemporaryFile filePath))
               (s2\<lparr>files := (files s2)(filePath := None)\<rparr>)
         | Some e \<Rightarrow> emit (Console (CouldNotDeleteTemporaryFile filePath e)) s2))"

definition tempVttFile :: "string \<Rightarrow> path" where
  "tempVttFile videoId = path_join ''transcripts'' videoId @ ''.en.vtt''"

definition ytdlp_command :: "string \<Rightarrow> string \<Rightarrow> string" where
  \<open>ytdlp_command youtubeUrl videoId =
     ''yt-dlp --write-auto-sub --sub-lang en --skip-download -o "'' @
     path_join ''transcripts'' videoId @ ''.%(ext)s" "'' @ youtubeUrl @ ''"''\<close>

text \<open>
  The \<^verbatim>\<open>try\<close> block of \<^verbatim>\<open>downloadAndCleanYtDlpTranscript\<close>. The subtitle tool may leave
  the subtitle file behind whether it fails or not.
\<close>

definition ytdlp_try :: "world \<Rightarrow> string \<Rightarrow> string \<Rightarrow> state \<Rightarrow> (thrown + jsstring option) \<times> state" where
  "ytdlp_try w youtubeUrl videoId s =
     (let s1 = emit (Console StartingYtDlpDownload) s;
          s2 = emit (Exec (ytdlp_command youtubeUrl videoId)) s1;
          s3 = (case ytdlp_output w of
                  None \<Rightarrow> s2
                | Some c \<Rightarrow> s2\<lparr>files := (files s2)(tempVttFile videoId \<mapsto> c)\<rparr>)
      in case ytdlp_fault w of
           Some e \<Rightarrow> (Inl e, s3)
         | None \<Rightarrow>
             (let s4 = emit (Console DownloadCommandFinished) s3;
                  s5 = emit (Console (ReadingAndCleaningFile (tempVttFile videoId))) s4;
                  s6 = emit (ReadFile (tempVttFile videoId)) s5
              in case read_file (readFile_fault w) s6 (tempVttFile videoId) of
                   Inl e \<Rightarrow> (Inl e, s6)
                 | Inr vttContent \<Rightarrow>
                     (case cleaned_transcript vttContent of
                        Some fullParagraph \<Rightarrow>
                          (Inr (Some fullParagraph), emit (Console CaptionsExtracted) s6)
                      | None \<Rightarrow> (Inr None, emit (Console CaptionsEmptyOrUnparseable) s6))))"

text \<open>The \<^verbatim>\<open>catch\<close> block: the error is reported, with a hint when the tool is missing.\<close>

definition ytdlp_catch :: "thrown \<Rightarrow> state \<Rightarrow> state" where
  "ytdlp_catch e s =
     (let s1 = emit (Console (YtDlpMethodError e)) s in
      case e of
        Error m (Some err) \<Rightarrow>
          if err \<noteq> [] \<and> str_includes err ''command not found''
          then emit (Console TipYtDlpNotInstalled) s1 else s1
      | _ \<Rightarrow> s1)"

definition downloadAndCleanYtDlpTranscript ::
  "world \<Rightarrow> string \<Rightarrow> string \<Rightarrow> state \<Rightarrow> jsstring option \<times> state" where
  "downloadAndCleanYtDlpTranscript w youtubeUrl videoId s =
     (case ytdlp_try w youtubeUrl videoId s of
        (Inr r, s1) \<Rightarrow> (r, safeDeleteFile w (tempVttFile videoId) s1)
      | (Inl e, s1) \<Rightarrow> (None, safeDeleteFile w (tempVttFile videoId) (ytdlp_catch e s1)))"

section \<open>The audio method\<close>

text \<open>
  \<^verbatim>\<open>ensureTranscriptsDirectory\<close>: the directory is made when it is missing, and making it
  may fail.
\<close>

definition ensureTranscriptsDirectory :: "world \<Rightarrow> state \<Rightarrow> thrown option \<times> state" where
  "ensureTranscriptsDirectory w s =
     (let s1 = emit (ExistsSync ''transcripts'') s in
      if transcripts_dir s1 then (None, s1)
      else
        (let s2 = emit (MkdirSync ''transcripts'') s1 in
         case mkdir_fault w of
           Some e \<Rightarrow> (Some e, s2)
         | None \<Rightarrow> (None, s2\<lparr>transcripts_dir := True\<rparr>)))"

definition download_timeout :: thrown where
  "download_timeout = Error ''Download timeout after 5 minutes'' None"

text \<open>
  \<^verbatim>\<open>downloadAudio\<close>, up to the moment its promise settles. The write stream opens the
  audio file asynchronously.
  \<^item> When \<^verbatim>\<open>ytdl(...)\<close> throws, the promise is rejected in the same turn of the event
    loop: the file is not on disk yet, and the write stream, which nothing destroys, is
    still opening it.
  \<^item> The other outcomes are reported by the network, the file system or the timer in a
    later turn of the event loop; the open has finished by then, and the world's
    \<open>download_file\<close> is what the file holds at that moment (\<open>None\<close>: the open failed and
    there is no file).
\<close>

definition downloadAudio :: "world \<Rightarrow> string \<Rightarrow> path \<Rightarrow> state \<Rightarrow> thrown option \<times> state" where
  "downloadAudio w youtubeUrl filePath s =
     (let s1 = emit (CreateWriteStream filePath) s;
          s2 = (case download_file w of
                  None \<Rightarrow> s1
                | Some c \<Rightarrow> s1\<lparr>files := (files s1)(filePath \<mapsto> c)\<rparr>);
          s3 = emit (YtdlDownload youtubeUrl) s2
      in case download_outcome w of
           CreateWriteStreamThrows e \<Rightarrow> (Some e, s1)
         | YtdlThrows e \<Rightarrow>
             (Some e,
              emit (YtdlDownload youtubeUrl)
                (s1\<lparr>still_opening := still_opening s1 @ [filePath]\<rparr>))
         | DownloadEnds \<Rightarrow> (None, emit (Console AudioDownloadComplete) s3)
         | DownloadFails e \<Rightarrow> (Some e, emit (Console (DownloadStreamError e)) s3)
         | WriteFails e \<Rightarrow> (Some e, emit (Console (AudioStreamError e)) s3)
         | TimerFires \<Rightarrow>
             (Some download_timeout, emit DestroyAudioStream (emit DestroyDownloadStream s3)))"

text \<open>\<^verbatim>\<open>parseInt(s, 10)\<close>; \<open>None\<close> is \<^verbatim>\<open>NaN\<close>.\<close>

definition digits_value :: "jsstring \<Rightarrow> nat" where
  "digits_value ds = foldl (\<lambda>a d. 10 * a + (d - 48)) 0 ds"

definition parseInt10 :: "jsstring \<Rightarrow> int option" where
  "parseInt10 s =
     (let t = dropWhile is_trimmed_char s;
          neg = (t \<noteq> [] \<and> hd t = 45);
          u = (if t \<noteq> [] \<and> (hd t = 45 \<or> hd t = 43) then tl t else t);
          ds = takeWhile is_digit u
      in if ds = [] then None
         else Some (if neg then - int (digits_value ds) else int (digits_value ds)))"

record metadata =
  title :: jsstring
  author :: jsstring
  duration :: "int option"

definition metadata_of :: "video_details \<Rightarrow> metadata" where
  "metadata_of d =
     \<lparr>title = vd_title d, author = vd_author_name d, duration = parseInt10 (vd_lengthSeconds d)\<rparr>"

datatype method_kind = Deepgram | YoutubeCaptionsYdlp

record TranscriptResult =
  transcript :: "jsstring option"
  speakers :: "string list option"
  method_tag :: method_kind
  confidence :: "real option"
  metadata :: "metadata option"

text \<open>\<^verbatim>\<open>String(n)\<close> for a speaker number, \<^verbatim>\<open>undefined\<close> and \<^verbatim>\<open>null\<close>.\<close>

fun decimal :: "nat \<Rightarrow> string" where
  "decimal n =
     (if n < 10 then [char_of (48 + n)]
      else decimal (n div 10) @ [char_of (48 + n mod 10)])"

declare decimal.simps [simp del]

fun String :: "js_speaker \<Rightarrow> string" where
  "String (SpeakerNumber n) = decimal n"
| "String SpeakerUndefined = ''undefined''"
| "String SpeakerNull = ''null''"

text \<open>The speaker labels of the utterances, as \<^verbatim>\<open>extractTranscript\<close> computes them.\<close>

definition speaker_labels :: "js_speaker list option \<Rightarrow> string list option" where
  "speaker_labels us =
     map_option (\<lambda>l. filter (\<lambda>speaker. speaker \<noteq> ''undefined'' \<and> speaker \<noteq> ''null'')
                       (map String l)) us"

definition uniqueSpeakers :: "js_speaker list option \<Rightarrow> string list option" where
  "uniqueSpeakers us =
     (case speaker_labels us of
        None \<Rightarrow> None
      | Some labels \<Rightarrow> if length labels > 0 then Some (new_Set labels) else None)"

text \<open>\<^verbatim>\<open>result?.results?.channels?.[0]?.alternatives?.[0]\<close>.\<close>

definition first_opt :: "'a list \<Rightarrow> 'a option" where
  "first_opt xs = (case xs of [] \<Rightarrow> None | x # _ \<Rightarrow> Some x)"

definition first_alternative :: "dg_results option option \<Rightarrow> dg_alternative option" where
  "first_alternative result =
     Option.bind result (\<lambda>r. Option.bind r (\<lambda>results. Option.bind (channels results)
       (\<lambda>cs. Option.bind (first_opt cs) (\<lambda>c. Option.bind c first_opt))))"

definition reply_utterances :: "dg_results option option \<Rightarrow> js_speaker list option" where
  "reply_utterances result = Option.bind result (\<lambda>r. Option.bind r utterances)"

definition audioFilePath :: "string \<Rightarrow> path" where
  "audioFilePath videoId = path_join ''transcripts'' (videoId @ ''.mp4'')"

definition no_audio_format :: thrown where
  "no_audio_format = Error ''No suitable audio format found for the video.'' None"

definition deepgram_api_error :: "string \<Rightarrow> thrown" where
  "deepgram_api_error m = Error (''Deepgram API error: '' @ m) None"

text \<open>
  The \<^verbatim>\<open>try\<close> block of the audio method in \<^verbatim>\<open>extractTranscript\<close>, in two parts: the
  part after the download (reading the audio file, the speech-to-text call, building the
  result, deleting the file), and the whole block.
\<close>

definition transcribe_audio ::
  "world \<Rightarrow> string \<Rightarrow> video_details \<Rightarrow> state \<Rightarrow> (thrown + TranscriptResult) \<times> state" where
  "transcribe_audio w videoId details s =
     (let s1 = emit (Console TranscribingWithDeepgram) s;
          s2 = emit (ReadFileSync (audioFilePath videoId)) s1
      in case read_file (readFileSync_fault w) s2 (audioFilePath videoId) of
           Inl e \<Rightarrow> (Inl e, s2)
         | Inr audioFileBuffer \<Rightarrow>
             (let s3 = emit (DeepgramTranscribeFile audioFileBuffer) s2 in
              case transcribe_result w of
                Inl e \<Rightarrow> (Inl e, s3)
              | Inr reply \<Rightarrow>
                  (case reply_error reply of
                     Some m \<Rightarrow> (Inl (deepgram_api_error m), s3)
                   | None \<Rightarrow>
                       (let alt = first_alternative (reply_result reply);
                            s4 = safeDeleteFile w (audioFilePath videoId) s3;
                            s5 = emit (Console TranscribedWithDeepgram) s4
                        in (Inr \<lparr>transcript = Option.bind alt alt_transcript,
                                 speakers = uniqueSpeakers (reply_utterances (reply_result reply)),
                                 method_tag = Deepgram,
                                 confidence = Option.bind alt alt_confidence,
                                 metadata = Some (metadata_of details)\<rparr>,
                            s5)))))"

definition audio_try :: "world \<Rightarrow> string \<Rightarrow> string \<Rightarrow> state \<Rightarrow> (thrown + TranscriptResult) \<times> state" where
  "audio_try w youtubeUrl videoId s =
     (let s1 = emit (Console FetchingVideoMetadata) s;
          s2 = emit (YtdlGetInfo youtubeUrl) s1
      in case getInfo_result w of
           Inl e \<Rightarrow> (Inl e, s2)
         | Inr details \<Rightarrow>
             (let s3 = emit YtdlChooseFormat s2 in
              case chooseFormat_result w of
                Inl e \<Rightarrow> (Inl e, s3)
              | Inr audioFormat \<Rightarrow>
                  if \<not> audioFormat then (Inl no_audio_format, s3)
                  else
                    (let s4 = emit (Console DownloadingVideoAudio) s3 in
                     case downloadAudio w youtubeUrl (audioFilePath videoId) s4 of
                       (Some e, s5) \<Rightarrow> (Inl e, s5)
                     | (None, s5) \<Rightarrow> transcribe_audio w videoId details s5)))"

text \<open>The \<^verbatim>\<open>catch\<close> block: the error is reported with hints, and the audio file deleted.\<close>

definition audio_catch :: "world \<Rightarrow> thrown \<Rightarrow> string \<Rightarrow> state \<Rightarrow> state" where
  "audio_catch w e videoId s =
     (let s1 = emit (Console (ErrorInExtractTranscript e)) s;
          s2 = (case e of
                  Error m err \<Rightarrow>
                    (let t1 = (if str_includes m ''Could not extract functions'' \<or>
                                  str_includes m ''Video unavailable''
                               then emit (Console TipYouTubeApiChanges) s1 else s1)
                     in if str_includes m ''403'' \<or> str_includes m ''429''
                        then emit (Console TipRateLimiting) t1 else t1)
                | NonError \<Rightarrow> s1)
      in safeDeleteFile w (audioFilePath videoId) s2)"

definition null_result :: TranscriptResult where
  "null_result =
     \<lparr>transcript = None, speakers = None, method_tag = Deepgram, confidence = None,
      metadata = None\<rparr>"

definition required_parameters :: thrown where
  "required_parameters = Error ''Both youtubeUrl and videoId are required parameters.'' None"

definition deepgram_key_not_set :: thrown where
  "deepgram_key_not_set = Error ''DEEPGRAM_API_KEY is not set in environment variables.'' None"

text \<open>The second method of \<^verbatim>\<open>extractTranscript\<close>, from the fall-back message on.\<close>

definition deepgram_fallback :: "world \<Rightarrow> string \<Rightarrow> string \<Rightarrow> state \<Rightarrow> (thrown + TranscriptResult) \<times> state" where
  "deepgram_fallback w youtubeUrl videoId s =
     (let s1 = emit (Console FallingBackToDeepgram) s in
      case env_DEEPGRAM_API_KEY w of
        None \<Rightarrow> (Inl deepgram_key_not_set, s1)
      | Some deepgramApiKey \<Rightarrow>
          if deepgramApiKey = [] then (Inl deepgram_key_not_set, s1)
          else
            (let s2 = emit (DeepgramCreateClient deepgramApiKey) s1 in
             case createClient_fault w of
               Some e \<Rightarrow> (Inl e, s2)
             | None \<Rightarrow>
                 (case ensureTranscriptsDirectory w s2 of
                    (Some e, s3) \<Rightarrow> (Inl e, s3)
                  | (None, s3) \<Rightarrow>
                      (case audio_try w youtubeUrl videoId s3 of
                         (Inr r, s4) \<Rightarrow> (Inr r, s4)
                       | (Inl e, s4) \<Rightarrow> (Inr null_result, audio_catch w e videoId s4)))))"

text \<open>The first method's result: the metadata is fetched, and its failure only warned about.\<close>

definition captions_result :: "world \<Rightarrow> string \<Rightarrow> jsstring \<Rightarrow> state \<Rightarrow> TranscriptResult \<times> state" where
  "captions_result w youtubeUrl ytDlpTranscript s =
     (let s1 = emit (YtdlGetInfo youtubeUrl) s;
          (md, s2) = (case getInfo_result w of
                        Inr details \<Rightarrow> (Some (metadata_of details), s1)
                      | Inl err \<Rightarrow> (None, emit (Console (CouldNotFetchMetadata err)) s1))
      in (\<lparr>transcript = Some ytDlpTranscript, speakers = None, method_tag = YoutubeCaptionsYdlp,
           confidence = None, metadata = md\<rparr>, s2))"

definition extractTranscript :: "world \<Rightarrow> string \<Rightarrow> string \<Rightarrow> state \<Rightarrow> (thrown + TranscriptResult) \<times> state" where
  "extractTranscript w youtubeUrl videoId s =
     (if youtubeUrl = [] \<or> videoId = [] then (Inl required_parameters, s)
      else
        (case downloadAndCleanYtDlpTranscript w youtubeUrl videoId s of
           (Some ytDlpTranscript, s1) \<Rightarrow>
             if ytDlpTranscript \<noteq> [] then
               (case captions_result w youtubeUrl ytDlpTranscript s1 of (r, s2) \<Rightarrow> (Inr r, s2))
             else deepgram_fallback w youtubeUrl videoId s1
         | (None, s1) \<Rightarrow> deepgram_fallback w youtubeUrl videoId s1))"

text \<open>
  A run starts with the files already on disk, no call made yet and no write stream
  opening.
\<close>

definition initial :: "(path \<rightharpoonup> content) \<Rightarrow> bool \<Rightarrow> state" where
  "initial fs dir = \<lparr>files = fs, transcripts_dir = dir, trace = [], still_opening = []\<rparr>"

text \<open>
  What happens on disk after the run has returned: a write stream that is still opening
  opens its file, unless the open fails. Nothing has been written to the stream, so the
  file is empty; with the flag \<^verbatim>\<open>w\<close> the open replaces a file of that name.
\<close>

definition after_return :: "world \<Rightarrow> state \<Rightarrow> state" where
  "after_return w s =
     (case download_file w of
        None \<Rightarrow> s\<lparr>still_opening := []\<rparr>
      | Some c \<Rightarrow>
          s\<lparr>files := foldl (\<lambda>fs p. fs(p \<mapsto> [])) (files s) (still_opening s),
            still_opening := []\<rparr>)"

section \<open>The summary\<close>

record VideoMetadata =
  vm_title :: jsstring
  vm_author :: jsstring

text \<open>
  The language-model service in one run: the key in the environment, and what
  \<^verbatim>\<open>generateContent\<close> does: it fails, or answers with a response whose \<^verbatim>\<open>text()\<close> fails
  or gives the summary. Creating the client object and choosing the model send no request;
  they are taken not to fail.
\<close>

record gemini_world =
  env_GEMINI_API_KEY :: "string option"
  generateContent_result :: "thrown + (thrown + jsstring)"

definition summary_prompt :: "jsstring \<Rightarrow> VideoMetadata \<Rightarrow> jsstring" where
  \<open>summary_prompt transcriptText videoMetadata =
     ascii ''You are a helpful assistant for summarizing YouTube video transcripts. Please provide a concise summary of the following video transcript. The video is titled "''
     @ vm_title videoMetadata @ ascii ''" by "'' @ vm_author videoMetadata @ ascii ''".'' @ [10, 10]
     @ ascii ''  **Instructions for the summary:**'' @ [10]
     @ ascii ''  - Start with a single sentence that captures the main idea.'' @ [10]
     @ ascii ''  - Follow with a bulleted list of 5-7 key takeaways or main points.'' @ [10]
     @ ascii ''  - Do not include any introductory or concluding remarks (e.g., "Here is a summary...").'' @ [10, 10]
     @ ascii ''  **Video Transcript:**'' @ [10]
     @ ascii ''  '' @ transcriptText @ [10] @ ascii ''  ''\<close>

definition generateSummary ::
  "gemini_world \<Rightarrow> jsstring \<Rightarrow> VideoMetadata \<Rightarrow> event list \<Rightarrow> jsstring option \<times> event list" where
  "generateSummary g transcriptText videoMetadata tr =
     (case env_GEMINI_API_KEY g of
        None \<Rightarrow> (None, tr @ [Console GeminiKeyNotSet])
      | Some geminiApiKey \<Rightarrow>
          if geminiApiKey = [] then (None, tr @ [Console GeminiKeyNotSet])
          else
            (let tr1 = tr @ [NewGoogleGenerativeAI geminiApiKey,
                             GetGenerativeModel ''gemini-1.5-flash-latest'',
                             GenerateContent (summary_prompt transcriptText videoMetadata)]
             in case generateContent_result g of
                  Inl e \<Rightarrow> (None, tr1 @ [Console (GeminiSummaryFailed e)])
                | Inr (Inl e) \<Rightarrow> (None, tr1 @ [Console (GeminiSummaryFailed e)])
                | Inr (Inr summary) \<Rightarrow> (Some summary, tr1)))"

section \<open>Notions used in the properties\<close>

text \<open>The two labels that stand for a missing speaker.\<close>

definition sentinel :: "string \<Rightarrow> bool" where
  "sentinel l = (l = ''undefined'' \<or> l = ''null'')"

text \<open>The number of requests sent to the language-model service in a trace.\<close>

fun is_GenerateContent :: "event \<Rightarrow> bool" where
  "is_GenerateContent (GenerateContent p) = True"
| "is_GenerateContent _ = False"

definition service_calls :: "event list \<Rightarrow> nat" where
  "service_calls tr = length (filter is_GenerateContent tr)"

text \<open>
  The duplicate-free list that keeps each element where it occurs first: the head stays,
  and its later copies are removed.
\<close>

fun first_occurrences :: "'a list \<Rightarrow> 'a list" where
  "first_occurrences [] = []"
| "first_occurrences (x # xs) = x # first_occurrences (removeAll x xs)"

text \<open>
  The cleaned text lines of a subtitle file as the specification describes them: the
  lines are trimmed, the empty, header, cue-timing and cue-index lines are discarded, tags
  and bracketed annotations are removed from the others, and what is empty then is
  discarded as well.
\<close>

definition kept_lines :: "jsstring \<Rightarrow> jsstring list" where
  "kept_lines vttContent =
     filter (\<lambda>l. l \<noteq> [])
       (map clean_line (filter (\<lambda>t. \<not> skipped_line t) (map trim (split_lines vttContent))))"

text \<open>
  A markup tag in a string: an opening angle bracket with a closing one after it. A
  bracketed annotation: an opening square bracket with a closing one after it on the same
  line.
\<close>

fun has_tag :: "jsstring \<Rightarrow> bool" where
  "has_tag [] = False"
| "has_tag (c # cs) = ((c = LT_SIGN \<and> GT_SIGN \<in> set cs) \<or> has_tag cs)"

fun closes_on_line :: "jsstring \<Rightarrow> bool" where
  "closes_on_line [] = False"
| "closes_on_line (c # cs) = (c = RBRACKET \<or> (\<not> is_line_terminator c \<and> closes_on_line cs))"

fun has_annotation :: "jsstring \<Rightarrow> bool" where
  "has_annotation [] = False"
| "has_annotation (c # cs) = ((c = LBRACKET \<and> closes_on_line cs) \<or> has_annotation cs)"

text \<open>
  A markup line is made of tags and white space only, a bracketed-annotation line of
  bracketed annotations and white space only. The flag says whether the reader is inside
  a tag or an annotation.
\<close>

fun only_tags :: "bool \<Rightarrow> jsstring \<Rightarrow> bool" where
  "only_tags inside [] = (\<not> inside)"
| "only_tags inside (c # cs) =
     (if inside then only_tags (c \<noteq> GT_SIGN) cs
      else if c = LT_SIGN then only_tags True cs
      else is_trimmed_char c \<and> only_tags False cs)"

fun only_annotations :: "bool \<Rightarrow> jsstring \<Rightarrow> bool" where
  "only_annotations inside [] = (\<not> inside)"
| "only_annotations inside (c # cs) =
     (if inside then
        (if c = RBRACKET then only_annotations False cs
         else \<not> is_line_terminator c \<and> only_annotations True cs)
      else if c = LBRACKET then only_annotations True cs
      else is_trimmed_char c \<and> only_annotations False cs)"

text \<open>
  A line that carries no text: once trimmed it is empty, a header, a cue-timing or a
  cue-index line, a markup line or a bracketed-annotation line.
\<close>

definition noise_line :: "jsstring \<Rightarrow> bool" where
  "noise_line line =
     (skipped_line (trim line) \<or> only_tags False (trim line) \<or>
      only_annotations False (trim line))"

definition noise_only :: "jsstring \<Rightarrow> bool" where
  "noise_only vttContent = list_all noise_line (split_lines vttContent)"

text \<open>
  The calls of a trace by kind: the calls to the speech-to-text client, the calls that
  only the audio method makes, and the requests to an outside service (the video
  platform, the speech-to-text service, the language model). An event that is of neither
  of the last two kinds is quiet.
\<close>

fun is_stt_call :: "event \<Rightarrow> bool" where
  "is_stt_call (DeepgramCreateClient k) = True"
| "is_stt_call (DeepgramTranscribeFile b) = True"
| "is_stt_call _ = False"

fun is_audio_call :: "event \<Rightarrow> bool" where
  "is_audio_call (DeepgramCreateClient k) = True"
| "is_audio_call (DeepgramTranscribeFile b) = True"
| "is_audio_call (MkdirSync p) = True"
| "is_audio_call YtdlChooseFormat = True"
| "is_audio_call (CreateWriteStream p) = True"
| "is_audio_call (YtdlDownload u) = True"
| "is_audio_call DestroyDownloadStream = True"
| "is_audio_call DestroyAudioStream = True"
| "is_audio_call (ReadFileSync p) = True"
| "is_audio_call _ = False"

fun is_service_call :: "event \<Rightarrow> bool" where
  "is_service_call (YtdlGetInfo u) = True"
| "is_service_call (YtdlDownload u) = True"
| "is_service_call (DeepgramTranscribeFile b) = True"
| "is_service_call (GenerateContent p) = True"
| "is_service_call _ = False"

definition quiet :: "event \<Rightarrow> bool" where
  "quiet e = (\<not> is_audio_call e \<and> \<not> is_service_call e)"

fun is_transcription :: "event \<Rightarrow> bool" where
  "is_transcription (DeepgramTranscribeFile b) = True"
| "is_transcription _ = False"

text \<open>
  A failure on the audio path: the metadata fetch fails, no suitable audio format is found
  (the choice throws or gives nothing), the download fails or times out, or the
  speech-to-text service fails (the call throws or answers with an error). The first three
  happen before the audio is sent to the service.
\<close>

definition audio_failure :: "world \<Rightarrow> bool" where
  "audio_failure w =
     (isl (getInfo_result w) \<or>
      chooseFormat_result w \<noteq> Inr True \<or>
      download_outcome w \<noteq> DownloadEnds \<or>
      (case transcribe_result w of Inl e \<Rightarrow> True | Inr reply \<Rightarrow> reply_error reply \<noteq> None))"

definition before_transcription :: "world \<Rightarrow> bool" where
  "before_transcription w =
     (isl (getInfo_result w) \<or>
      chooseFormat_result w \<noteq> Inr True \<or>
      download_outcome w \<noteq> DownloadEnds)"

text \<open>
  The audio method can start: the key is set, the client is created, and the working
  directory exists or can be made.
\<close>

definition setup_ok :: "world \<Rightarrow> bool \<Rightarrow> bool" where
  "setup_ok w dir =
     (env_DEEPGRAM_API_KEY w \<noteq> None \<and> env_DEEPGRAM_API_KEY w \<noteq> Some [] \<and>
      createClient_fault w = None \<and> (dir \<or> mkdir_fault w = None))"

text \<open>
  A run in which everything works: the subtitle tool leaves a subtitle file with one line
  of text, the video has metadata and an audio format, the download ends, and the
  speech-to-text service answers. The examples below change one part of it at a time.
\<close>

definition sample_details :: video_details where
  "sample_details = \<lparr>vd_title = ascii ''Talk'', vd_author_name = ascii ''Ann'',
     vd_lengthSeconds = ascii ''42''\<rparr>"

definition sample_reply :: dg_reply where
  "sample_reply =
     \<lparr>reply_result = Some (Some
        \<lparr>channels = Some [Some [\<lparr>alt_transcript = Some (ascii ''hi''), alt_confidence = Some 1\<rparr>]],
         utterances = Some [SpeakerNumber 0, SpeakerNull]\<rparr>),
      reply_error = None\<rparr>"

definition sample_world :: world where
  "sample_world =
     \<lparr>env_DEEPGRAM_API_KEY = Some ''key'',
      ytdlp_fault = None,
      ytdlp_output = Some (ascii ''WEBVTT'' @ [10] @ ascii ''hi''),
      readFile_fault = None,
      unlink_fault = (\<lambda>p. None),
      getInfo_result = Inr sample_details,
      createClient_fault = None,
      mkdir_fault = None,
      chooseFormat_result = Inr True,
      download_outcome = DownloadEnds,
      download_file = Some [1, 2, 3],
      readFileSync_fault = None,
      transcribe_result = Inr sample_reply\<rparr>"

text \<open>
  A temporary file is dealt with when it is gone, or when its deletion failed and the
  failure was reported on the console.
\<close>

definition deleted_or_logged :: "world \<Rightarrow> path \<Rightarrow> state \<Rightarrow> bool" where
  "deleted_or_logged w p s =
     (files s p = None \<or>
      (case unlink_fault w p of
         None \<Rightarrow> False
       | Some e \<Rightarrow> Console (CouldNotDeleteTemporaryFile p e) \<in> set (trace s)))"

fun is_write_stream :: "event \<Rightarrow> bool" where
  "is_write_stream (CreateWriteStream p) = True"
| "is_write_stream _ = False"

text \<open>A run whose audio download times out, and a failure of a deletion.\<close>

definition timeout_world :: world where
  "timeout_world = sample_world\<lparr>ytdlp_output := None, download_outcome := TimerFires\<rparr>"

definition EPERM :: thrown where
  "EPERM = Error ''EPERM: operation not permitted'' None"

text \<open>
  A run in which there are no captions and the call \<^verbatim>\<open>ytdl(...)\<close> in
  \<^verbatim>\<open>downloadAudio\<close> throws; everything else works, and no deletion fails.
\<close>

definition ytdl_throws_world :: world where
  "ytdl_throws_world =
     sample_world\<lparr>ytdlp_output := None,
       download_outcome := YtdlThrows (Error ''ytdl failed'' None)\<rparr>"

section \<open>Properties\<close>

subsection \<open>Evaluating a run\<close>

lemmas run_eval =
  sample_world_def sample_details_def sample_reply_def timeout_world_def EPERM_def
  ytdl_throws_world_def initial_def
  extractTranscript_def downloadAndCleanYtDlpTranscript_def ytdlp_try_def ytdlp_catch_def
  safeDeleteFile_def captions_result_def deepgram_fallback_def ensureTranscriptsDirectory_def
  audio_try_def transcribe_audio_def downloadAudio_def audio_catch_def read_file_def
  tempVttFile_def audioFilePath_def path_join_def emit_def metadata_of_def parseInt10_def
  digits_value_def first_alternative_def first_opt_def reply_utterances_def uniqueSpeakers_def
  speaker_labels_def null_result_def ENOENT_def download_timeout_def no_audio_format_def
  deepgram_api_error_def deepgram_key_not_set_def required_parameters_def
  audio_failure_def before_transcription_def setup_ok_def deleted_or_logged_def

lemma decimal_small: "decimal 0 = ''0''" "decimal 1 = ''1''" "decimal 2 = ''2''"
  by code_simp+

subsection \<open>Sets in insertion order\<close>

lemma set_foldl_set_add: "set (foldl set_add acc xs) = set acc \<union> set xs"
  by (induction xs arbitrary: acc) (auto simp: set_add_def)

lemma distinct_foldl_set_add: "distinct acc \<Longrightarrow> distinct (foldl set_add acc xs)"
  by (induction xs arbitrary: acc) (auto simp: set_add_def)

lemma set_new_Set: "set (new_Set xs) = set xs"
  by (simp add: new_Set_def set_foldl_set_add)

lemma distinct_new_Set: "distinct (new_Set xs)"
  by (simp add: new_Set_def distinct_foldl_set_add)

subsection \<open>Cleaning a subtitle file\<close>

lemma foldl_set_add_first_occurrences:
  "foldl set_add acc xs = acc @ first_occurrences (filter (\<lambda>x. x \<notin> set acc) xs)"
proof (induction xs arbitrary: acc)
  case Nil
  then show ?case by simp
next
  case (Cons x xs)
  show ?case
  proof (cases "x \<in> set acc")
    case True
    then have "set_add acc x = acc" by (simp add: set_add_def)
    with True show ?thesis by (simp add: Cons.IH)
  next
    case False
    then have step: "set_add acc x = acc @ [x]" by (simp add: set_add_def)
    have "removeAll x (filter (\<lambda>y. y \<notin> set acc) xs) = filter (\<lambda>y. y \<notin> set (acc @ [x])) xs"
      by (induction xs) auto
    with False step show ?thesis by (simp add: Cons.IH)
  qed
qed

lemma new_Set_first_occurrences: "new_Set xs = first_occurrences xs"
  by (simp add: new_Set_def foldl_set_add_first_occurrences)

lemma collect_text_eq:
  "collect_text acc ls =
     acc @ filter (\<lambda>l. l \<noteq> []) (map clean_line (filter (\<lambda>t. \<not> skipped_line t) (map trim ls)))"
  by (induction ls arbitrary: acc) (simp_all add: Let_def)

lemma text_lines_kept: "text_lines c = kept_lines c"
  by (simp add: text_lines_def kept_lines_def collect_text_eq)

lemma after_gt_None: "after_gt cs = None \<longleftrightarrow> GT_SIGN \<notin> set cs"
  by (induction cs) auto

lemma set_strip_tags: "set (strip_tags s) \<subseteq> set s"
proof (induction s rule: strip_tags.induct)
  case 1
  then show ?case by simp
next
  case (2 c cs)
  have "after_gt cs = Some r \<Longrightarrow> set r \<subseteq> set cs" for r
    by (induction cs) (auto split: if_splits)
  with 2 show ?case by (auto split: option.splits; blast)
qed

lemma no_tag_strip_tags: "\<not> has_tag (strip_tags s)"
proof (induction s rule: strip_tags.induct)
  case 1
  then show ?case by simp
next
  case (2 c cs)
  show ?case
  proof (cases "c = LT_SIGN")
    case True
    show ?thesis
    proof (cases "after_gt cs")
      case None
      then have "GT_SIGN \<notin> set (strip_tags cs)"
        using set_strip_tags[of cs] by (auto simp: after_gt_None)
      with "2.IH"(1)[OF True None] True None show ?thesis by simp
    next
      case (Some r)
      with "2.IH"(2)[OF True Some] True show ?thesis by simp
    qed
  next
    case False
    with "2.IH"(3)[OF False] show ?thesis by simp
  qed
qed

lemma has_tag_subseq: "has_tag s \<longleftrightarrow> subseq [LT_SIGN, GT_SIGN] s"
proof (induction s)
  case Nil
  then show ?case by simp
next
  case (Cons c cs)
  have one: "subseq [GT_SIGN] cs \<longleftrightarrow> GT_SIGN \<in> set cs"
    by (simp add: subseq_singleton_left)
  have two: "subseq [LT_SIGN, GT_SIGN] cs \<Longrightarrow> subseq [GT_SIGN] cs"
    by (rule subseq_Cons')
  from Cons one two show ?case by auto
qed

lemma subseq_strip_brackets: "subseq (strip_brackets s) s"
proof (induction s rule: strip_brackets.induct)
  case 1
  then show ?case by simp
next
  case (2 c cs)
  have suf: "after_rbracket cs = Some r \<Longrightarrow> suffix r cs" for r
    by (induction cs) (auto split: if_splits simp: suffix_Cons)
  show ?case
  proof (cases "c = LBRACKET \<and> after_rbracket cs \<noteq> None")
    case True
    then obtain r where r: "after_rbracket cs = Some r" by auto
    with True "2.IH"(2)[of r] have "subseq (strip_brackets r) r" by simp
    moreover from suf[OF r] have "subseq r (c # cs)"
      by (meson subseq_Cons' suffix_imp_subseq subseq_order.trans list_emb_Cons)
    ultimately show ?thesis using True r by (auto intro: subseq_order.trans)
  next
    case False
    with 2 show ?thesis by (auto split: option.splits)
  qed
qed

lemma subseq_trim: "subseq (trim s) s"
proof -
  have "suffix (dropWhile is_trimmed_char s) s"
    by (rule suffix_dropWhile)
  moreover have "prefix (rev (dropWhile is_trimmed_char (rev t))) t" for t :: jsstring
    using suffix_dropWhile[of is_trimmed_char "rev t"] by (simp add: suffix_to_prefix)
  ultimately show ?thesis
    unfolding trim_def
    by (meson prefix_imp_subseq suffix_imp_subseq subseq_order.trans)
qed

lemma no_tag_clean_line: "\<not> has_tag (clean_line t)"
proof
  assume "has_tag (clean_line t)"
  then have "subseq [LT_SIGN, GT_SIGN] (trim (strip_brackets (strip_tags t)))"
    by (simp add: has_tag_subseq clean_line_def)
  then have "subseq [LT_SIGN, GT_SIGN] (strip_tags t)"
    by (meson subseq_trim subseq_strip_brackets subseq_order.trans)
  then show False using no_tag_strip_tags[of t] by (simp add: has_tag_subseq)
qed


lemma closes_on_line_iff: "closes_on_line cs \<longleftrightarrow> after_rbracket cs \<noteq> None"
  by (induction cs) auto

lemma not_closes_strip_brackets:
  "\<not> closes_on_line s \<Longrightarrow> \<not> closes_on_line (strip_brackets s)"
proof (induction s rule: strip_brackets.induct)
  case 1
  then show ?case by simp
next
  case (2 c cs)
  show ?case
  proof (cases "c = LBRACKET")
    case True
    with "2.prems" have nc: "\<not> closes_on_line cs"
      by (simp add: LBRACKET_def RBRACKET_def is_line_terminator_def)
    then have "after_rbracket cs = None" by (simp add: closes_on_line_iff)
    with "2.IH"(1)[OF True this nc] True "2.prems" show ?thesis by simp
  next
    case False
    with "2.prems" "2.IH"(3)[OF False] show ?thesis by auto
  qed
qed

lemma no_annotation_strip_brackets: "\<not> has_annotation (strip_brackets s)"
proof (induction s rule: strip_brackets.induct)
  case 1
  then show ?case by simp
next
  case (2 c cs)
  show ?case
  proof (cases "c = LBRACKET")
    case True
    show ?thesis
    proof (cases "after_rbracket cs")
      case None
      then have "\<not> closes_on_line cs"
        by (simp add: closes_on_line_iff)
      then have "\<not> closes_on_line (strip_brackets cs)"
        by (rule not_closes_strip_brackets)
      with "2.IH"(1)[OF True None] True None show ?thesis by simp
    next
      case (Some r)
      with "2.IH"(2)[OF True Some] True show ?thesis by simp
    qed
  next
    case False
    with "2.IH"(3)[OF False] show ?thesis by simp
  qed
qed

lemma closes_on_line_append: "closes_on_line a \<Longrightarrow> closes_on_line (a @ b)"
  by (induction a) auto

lemma has_annotation_append_right: "has_annotation a \<Longrightarrow> has_annotation (a @ b)"
  by (induction a) (auto simp: closes_on_line_append)

lemma has_annotation_append_left: "has_annotation b \<Longrightarrow> has_annotation (a @ b)"
  by (induction a) auto

lemma has_annotation_trim: "has_annotation (trim s) \<Longrightarrow> has_annotation s"
proof -
  assume h: "has_annotation (trim s)"
  let ?d = "dropWhile is_trimmed_char s"
  have "prefix (trim s) ?d"
    using suffix_dropWhile[of is_trimmed_char "rev ?d"]
    by (simp add: suffix_to_prefix trim_def)
  then obtain b where "?d = trim s @ b" by (auto simp: prefix_def)
  with h have "has_annotation ?d"
    using has_annotation_append_right[of "trim s" b] by simp
  moreover have "s = takeWhile is_trimmed_char s @ ?d" by simp
  ultimately show ?thesis
    using has_annotation_append_left[of ?d "takeWhile is_trimmed_char s"] by simp
qed

lemma no_annotation_clean_line: "\<not> has_annotation (clean_line t)"
  unfolding clean_line_def
  using has_annotation_trim no_annotation_strip_brackets by blast

lemma distinct_first_occurrences: "distinct (first_occurrences xs)"
  by (metis new_Set_first_occurrences distinct_new_Set)

lemma set_first_occurrences: "set (first_occurrences xs) = set xs"
  by (metis new_Set_first_occurrences set_new_Set)

lemmas text_eval =
  ascii_def skipped_line_def clean_line_def trim_def is_trimmed_char_def is_white_space_def
  is_line_terminator_def all_digits_def is_digit_def LT_SIGN_def GT_SIGN_def LBRACKET_def
  RBRACKET_def SPACE_def kept_lines_def text_lines_def full_paragraph_def cleaned_transcript_def
  new_Set_def set_add_def noise_only_def noise_line_def Let_def

lemma kept_lines_clean:
  "l \<in> set (kept_lines c) \<Longrightarrow> l \<noteq> [] \<and> \<not> has_tag l \<and> \<not> has_annotation l"
  by (auto simp: kept_lines_def no_tag_clean_line no_annotation_clean_line)

text \<open>
  C6. The paragraph that the caption method builds from a subtitle file is the cleaned text
  lines, each distinct line once, in the order of their first occurrence, joined by single
  spaces. The cleaned text lines are what is left of the trimmed lines after the empty
  lines, the header lines, the cue-timing lines and the cue-index lines are discarded and
  the tags and bracketed annotations are removed: no kept line is empty, holds a tag, or
  holds a bracketed annotation.
\<close>

theorem full_paragraph_first_occurrences:
  "full_paragraph c = join_space (first_occurrences (kept_lines c)) \<and>
   distinct (first_occurrences (kept_lines c)) \<and>
   set (first_occurrences (kept_lines c)) = set (kept_lines c) \<and>
   (\<forall>l \<in> set (kept_lines c). l \<noteq> [] \<and> \<not> has_tag l \<and> \<not> has_annotation l)"
proof (intro conjI ballI)
  show "full_paragraph c = join_space (first_occurrences (kept_lines c))"
    by (simp add: full_paragraph_def new_Set_first_occurrences text_lines_kept)
  show "distinct (first_occurrences (kept_lines c))"
    by (rule distinct_first_occurrences)
  show "set (first_occurrences (kept_lines c)) = set (kept_lines c)"
    by (rule set_first_occurrences)
next
  fix l assume "l \<in> set (kept_lines c)"
  then show "l \<noteq> []" "\<not> has_tag l" "\<not> has_annotation l"
    using kept_lines_clean by blast+
qed

theorem full_paragraph_first_occurrences_witness:
  "full_paragraph (ascii ''WEBVTT'' @ [10] @ ascii ''1'' @ [10]
       @ ascii ''00:00:00.000 --> 00:00:02.000'' @ [10]
       @ ascii '' <c>hello</c> [Music]'' @ [10] @ ascii ''world'' @ [13, 10] @ ascii ''hello'')
     = ascii ''hello world'' \<and>
   \<not> has_tag (ascii ''world'') \<and> \<not> has_annotation (ascii ''world'')"
proof -
  let ?c = "ascii ''WEBVTT'' @ [10] @ ascii ''1'' @ [10]
       @ ascii ''00:00:00.000 --> 00:00:02.000'' @ [10]
       @ ascii '' <c>hello</c> [Music]'' @ [10] @ ascii ''world'' @ [13, 10] @ ascii ''hello''"
  have k: "kept_lines ?c = [ascii ''hello'', ascii ''world'', ascii ''hello'']"
    by (simp add: text_eval)
  have j: "join_space (first_occurrences [ascii ''hello'', ascii ''world'', ascii ''hello''])
     = ascii ''hello world''"
    by (simp add: text_eval)
  from full_paragraph_first_occurrences [of ?c] show ?thesis
    unfolding k j by simp
qed

subsection \<open>Lines without text\<close>

lemma only_ann_after_gt:
  "only_annotations b cs \<Longrightarrow> after_gt cs = Some r \<Longrightarrow> only_annotations True r"
  by (induction cs arbitrary: b)
     (auto simp: GT_SIGN_def RBRACKET_def LBRACKET_def is_trimmed_char_def is_white_space_def is_line_terminator_def split: if_splits)

lemma only_ann_strip_tags: "only_annotations b s \<Longrightarrow> only_annotations b (strip_tags s)"
proof (induction s arbitrary: b rule: strip_tags.induct)
  case 1
  then show ?case by simp
next
  case (2 c cs)
  show ?case
  proof (cases "c = LT_SIGN")
    case True
    with "2.prems" have ins: "b" and rest: "only_annotations True cs"
      by (auto simp: LT_SIGN_def RBRACKET_def LBRACKET_def is_trimmed_char_def is_white_space_def is_line_terminator_def split: if_splits)
    show ?thesis
    proof (cases "after_gt cs")
      case None
      with True ins rest "2.IH"(1)[OF True None, of True] show ?thesis
        by (simp add: LT_SIGN_def RBRACKET_def is_line_terminator_def)
    next
      case (Some r)
      from only_ann_after_gt[OF rest Some] have "only_annotations True r" .
      with "2.IH"(2)[OF True Some] True Some ins show ?thesis by simp
    qed
  next
    case False
    with "2.prems" "2.IH"(3)[OF False] show ?thesis
      by (auto split: if_splits)
  qed
qed

lemma only_ann_after_rbracket:
  "only_annotations True cs \<Longrightarrow> \<exists>r. after_rbracket cs = Some r \<and> only_annotations False r"
  by (induction cs) (auto split: if_splits)

lemma only_ann_strip_brackets:
  "only_annotations False s \<Longrightarrow> list_all is_trimmed_char (strip_brackets s)"
proof (induction s rule: strip_brackets.induct)
  case 1
  then show ?case by simp
next
  case (2 c cs)
  show ?case
  proof (cases "c = LBRACKET")
    case True
    with "2.prems" have "only_annotations True cs" by simp
    then obtain r where r: "after_rbracket cs = Some r" "only_annotations False r"
      using only_ann_after_rbracket by blast
    with "2.IH"(2)[OF True r(1)] True show ?thesis by simp
  next
    case False
    with "2.prems" "2.IH"(3)[OF False] show ?thesis by simp
  qed
qed

lemma trim_all_ws:
  assumes "list_all is_trimmed_char s"
  shows "trim s = []"
proof -
  from assms have "dropWhile is_trimmed_char s = []"
    unfolding dropWhile_eq_Nil_conv list_all_iff .
  then show ?thesis by (simp add: trim_def del: dropWhile_eq_Nil_conv)
qed

lemma only_tags_after_gt:
  "only_tags True cs \<Longrightarrow> \<exists>r. after_gt cs = Some r \<and> only_tags False r"
  by (induction cs) (auto split: if_splits)

lemma only_tags_strip_tags:
  "only_tags False s \<Longrightarrow> list_all is_trimmed_char (strip_tags s)"
proof (induction s rule: strip_tags.induct)
  case 1
  then show ?case by simp
next
  case (2 c cs)
  show ?case
  proof (cases "c = LT_SIGN")
    case True
    with "2.prems" have "only_tags True cs" by simp
    then obtain r where r: "after_gt cs = Some r" "only_tags False r"
      using only_tags_after_gt by blast
    with "2.IH"(2)[OF True r(1)] True show ?thesis by simp
  next
    case False
    with "2.prems" "2.IH"(3)[OF False] show ?thesis by simp
  qed
qed

lemma strip_brackets_ws: "list_all is_trimmed_char s \<Longrightarrow> strip_brackets s = s"
  by (induction s) (auto simp: LBRACKET_def is_trimmed_char_def is_white_space_def is_line_terminator_def)

lemma clean_line_tags: "only_tags False t \<Longrightarrow> clean_line t = []"
  by (simp add: clean_line_def only_tags_strip_tags strip_brackets_ws trim_all_ws)

lemma clean_line_ann: "only_annotations False t \<Longrightarrow> clean_line t = []"
  by (simp add: clean_line_def only_ann_strip_tags only_ann_strip_brackets trim_all_ws)

lemma noise_line_clean:
  "noise_line l \<Longrightarrow> skipped_line (trim l) \<or> clean_line (trim l) = []"
  unfolding noise_line_def using clean_line_tags clean_line_ann by blast

lemma noise_kept_lines:
  "list_all noise_line ls \<Longrightarrow>
   filter (\<lambda>l. l \<noteq> []) (map clean_line (filter (\<lambda>t. \<not> skipped_line t) (map trim ls))) = []"
  by (induction ls) (auto dest: noise_line_clean)

lemma noise_only_cleaned: "noise_only c \<Longrightarrow> full_paragraph c = [] \<and> cleaned_transcript c = None"
  by (simp add: noise_only_def cleaned_transcript_def full_paragraph_def text_lines_kept kept_lines_def
      noise_kept_lines new_Set_def)

subsection \<open>Speaker labels\<close>

lemma uniqueSpeakers_Some:
  "uniqueSpeakers (Some us) =
     (if filter (\<lambda>l. \<not> sentinel l) (map String us) = [] then None
      else Some (new_Set (filter (\<lambda>l. \<not> sentinel l) (map String us))))"
proof -
  have eq: "(\<lambda>speaker. speaker \<noteq> ''undefined'' \<and> speaker \<noteq> ''null'') = (\<lambda>l. \<not> sentinel l)"
    unfolding sentinel_def by blast
  show ?thesis
    unfolding uniqueSpeakers_def speaker_labels_def eq
    by (cases "filter (\<lambda>l. \<not> sentinel l) (map String us)") simp_all
qed

text \<open>
  C8. The speaker labels of a result are the labels of the utterances without the two
  sentinels \<^verbatim>\<open>undefined\<close> and \<^verbatim>\<open>null\<close>, each once; the field is absent when there are no
  utterances or when no label is left. The utterances with the labels 0, 1, 0 and null give
  the two labels 0 and 1.
\<close>

theorem uniqueSpeakers_distinct_without_sentinels:
  "uniqueSpeakers None = None \<and>
   (case uniqueSpeakers (Some us) of
      None \<Rightarrow> list_all (\<lambda>u. sentinel (String u)) us
    | Some l \<Rightarrow> l \<noteq> [] \<and> distinct l \<and> set l = {x \<in> String ` set us. \<not> sentinel x}) \<and>
   uniqueSpeakers (Some [SpeakerNumber 0, SpeakerNumber 1, SpeakerNumber 0, SpeakerNull])
     = Some [''0'', ''1'']"
proof (intro conjI)
  show "uniqueSpeakers None = None"
    by (simp add: uniqueSpeakers_def speaker_labels_def)
next
  define ls where "ls = filter (\<lambda>l. \<not> sentinel l) (map String us)"
  have set_ls: "set ls = {x \<in> String ` set us. \<not> sentinel x}"
    unfolding ls_def by auto
  have u: "uniqueSpeakers (Some us) = (if ls = [] then None else Some (new_Set ls))"
    unfolding ls_def by (rule uniqueSpeakers_Some)
  show "case uniqueSpeakers (Some us) of
      None \<Rightarrow> list_all (\<lambda>u. sentinel (String u)) us
    | Some l \<Rightarrow> l \<noteq> [] \<and> distinct l \<and> set l = {x \<in> String ` set us. \<not> sentinel x}"
  proof (cases "ls = []")
    case True
    then have "set ls = {}" by simp
    then have "list_all (\<lambda>u. sentinel (String u)) us"
      unfolding set_ls list_all_iff by blast
    with True u show ?thesis by simp
  next
    case False
    then have "new_Set ls \<noteq> []"
      by (metis set_new_Set set_empty)
    with False u show ?thesis
      using set_ls by (simp add: distinct_new_Set set_new_Set)
  qed
next
  show "uniqueSpeakers (Some [SpeakerNumber 0, SpeakerNumber 1, SpeakerNumber 0, SpeakerNull])
     = Some [''0'', ''1'']"
    by code_simp
qed

theorem uniqueSpeakers_distinct_without_sentinels_witness:
  "uniqueSpeakers (Some [SpeakerNull, SpeakerUndefined]) = None \<and>
   uniqueSpeakers (Some [SpeakerNumber 2, SpeakerNull, SpeakerNumber 2]) = Some [''2'']"
proof -
  have a: "uniqueSpeakers (Some [SpeakerNull, SpeakerUndefined]) = None"
    by code_simp
  have b: "uniqueSpeakers (Some [SpeakerNumber 2, SpeakerNull, SpeakerNumber 2]) = Some [''2'']"
    by code_simp
  from uniqueSpeakers_distinct_without_sentinels [of "[SpeakerNull, SpeakerUndefined]"]
    uniqueSpeakers_distinct_without_sentinels [of "[SpeakerNumber 2, SpeakerNull, SpeakerNumber 2]"]
  show ?thesis using a b by simp
qed

subsection \<open>The summary\<close>

text \<open>
  C9. \<^verbatim>\<open>generateSummary\<close> gives a summary or null and never an exception. Without a key
  (absent or empty) it reports the missing key and gives null without any call to the
  service. With a key it sends exactly one request, so nothing is retried; it gives the
  summary when the service answers with one, and null when the request or the reading of
  the answer fails.
\<close>

theorem generateSummary_null_on_failure:
  "(env_GEMINI_API_KEY g = None \<or> env_GEMINI_API_KEY g = Some [] \<longrightarrow>
      generateSummary g t m tr = (None, tr @ [Console GeminiKeyNotSet]) \<and>
      service_calls (snd (generateSummary g t m tr)) = service_calls tr) \<and>
   (env_GEMINI_API_KEY g \<noteq> None \<and> env_GEMINI_API_KEY g \<noteq> Some [] \<longrightarrow>
      service_calls (snd (generateSummary g t m tr)) = service_calls tr + 1 \<and>
      (case generateContent_result g of
         Inr (Inr summary) \<Rightarrow> fst (generateSummary g t m tr) = Some summary
       | _ \<Rightarrow> fst (generateSummary g t m tr) = None))"
  by (auto simp: generateSummary_def service_calls_def split: option.splits sum.splits)

theorem generateSummary_null_on_failure_witness:
  "generateSummary
     \<lparr>env_GEMINI_API_KEY = None, generateContent_result = Inr (Inr (ascii ''s''))\<rparr>
     (ascii ''t'') \<lparr>vm_title = ascii ''a'', vm_author = ascii ''b''\<rparr> []
     = (None, [Console GeminiKeyNotSet]) \<and>
   fst (generateSummary
     \<lparr>env_GEMINI_API_KEY = Some ''k'', generateContent_result = Inl (Error ''503'' None)\<rparr>
     (ascii ''t'') \<lparr>vm_title = ascii ''a'', vm_author = ascii ''b''\<rparr> []) = None \<and>
   fst (generateSummary
     \<lparr>env_GEMINI_API_KEY = Some ''k'', generateContent_result = Inr (Inr (ascii ''s''))\<rparr>
     (ascii ''t'') \<lparr>vm_title = ascii ''a'', vm_author = ascii ''b''\<rparr> []) = Some (ascii ''s'')"
  using generateSummary_null_on_failure
      [of "\<lparr>env_GEMINI_API_KEY = None, generateContent_result = Inr (Inr (ascii ''s''))\<rparr>"
          "ascii ''t''" "\<lparr>vm_title = ascii ''a'', vm_author = ascii ''b''\<rparr>" "[]"]
    generateSummary_null_on_failure
      [of "\<lparr>env_GEMINI_API_KEY = Some ''k'', generateContent_result = Inl (Error ''503'' None)\<rparr>"
          "ascii ''t''" "\<lparr>vm_title = ascii ''a'', vm_author = ascii ''b''\<rparr>" "[]"]
    generateSummary_null_on_failure
      [of "\<lparr>env_GEMINI_API_KEY = Some ''k'', generateContent_result = Inr (Inr (ascii ''s''))\<rparr>"
          "ascii ''t''" "\<lparr>vm_title = ascii ''a'', vm_author = ascii ''b''\<rparr>" "[]"]
  by simp

subsection \<open>The caption method\<close>

lemma trace_emit [simp]: "trace (emit e s) = trace s @ [e]"
  and files_emit [simp]: "files (emit e s) = files s"
  and dir_emit [simp]: "transcripts_dir (emit e s) = transcripts_dir s"
  and still_opening_emit [simp]: "still_opening (emit e s) = still_opening s"
  by (simp_all add: emit_def)

lemma safeDeleteFile_trace:
  "\<exists>evs. trace (safeDeleteFile w p s) = trace s @ evs \<and> list_all quiet evs"
  by (simp add: safeDeleteFile_def Let_def quiet_def split: option.splits)

lemma safeDeleteFile_files:
  "files (safeDeleteFile w p s) q =
     (if q = p \<and> unlink_fault w p = None then None else files s q)"
  by (auto simp add: safeDeleteFile_def Let_def split: option.splits)

lemma safeDeleteFile_dir [simp]: "transcripts_dir (safeDeleteFile w p s) = transcripts_dir s"
  by (simp add: safeDeleteFile_def Let_def split: option.splits)

lemma safeDeleteFile_logged:
  "files (safeDeleteFile w p s) p = None \<or>
   (\<exists>e. unlink_fault w p = Some e \<and>
        Console (CouldNotDeleteTemporaryFile p e) \<in> set (trace (safeDeleteFile w p s)))"
  by (auto simp add: safeDeleteFile_def Let_def split: option.splits)

lemma ytdlp_try_trace:
  "\<exists>evs. trace (snd (ytdlp_try w u v s)) =
     trace s @ Console StartingYtDlpDownload # Exec (ytdlp_command u v) # evs \<and> list_all quiet evs"
  by (simp add: ytdlp_try_def Let_def quiet_def split: option.splits sum.splits)

lemma ytdlp_try_files:
  "files (snd (ytdlp_try w u v s)) =
     (case ytdlp_output w of None \<Rightarrow> files s | Some c \<Rightarrow> (files s)(tempVttFile v \<mapsto> c))"
  by (simp add: ytdlp_try_def Let_def split: option.splits sum.splits)

lemma ytdlp_try_dir [simp]: "transcripts_dir (snd (ytdlp_try w u v s)) = transcripts_dir s"
  by (simp add: ytdlp_try_def Let_def split: option.splits sum.splits)

lemma ytdlp_try_nonempty: "fst (ytdlp_try w u v s) = Inr (Some t) \<Longrightarrow> t \<noteq> []"
  by (auto simp: ytdlp_try_def Let_def cleaned_transcript_def split: option.splits sum.splits if_splits)

lemma ytdlp_catch_trace:
  "\<exists>evs. trace (ytdlp_catch e s) = trace s @ evs \<and> list_all quiet evs"
  by (simp add: ytdlp_catch_def Let_def quiet_def split: thrown.splits option.splits)

lemma ytdlp_catch_files [simp]: "files (ytdlp_catch e s) = files s"
  by (simp add: ytdlp_catch_def Let_def split: thrown.splits option.splits)

lemma ytdlp_catch_dir [simp]: "transcripts_dir (ytdlp_catch e s) = transcripts_dir s"
  by (simp add: ytdlp_catch_def Let_def split: thrown.splits option.splits)

lemma caption_fst:
  "fst (downloadAndCleanYtDlpTranscript w u v s) =
     (case fst (ytdlp_try w u v s) of Inr r \<Rightarrow> r | Inl e \<Rightarrow> None)"
  by (simp add: downloadAndCleanYtDlpTranscript_def split: prod.splits sum.splits)

lemma caption_snd:
  "snd (downloadAndCleanYtDlpTranscript w u v s) =
     safeDeleteFile w (tempVttFile v)
       (case fst (ytdlp_try w u v s) of
          Inr r \<Rightarrow> snd (ytdlp_try w u v s)
        | Inl e \<Rightarrow> ytdlp_catch e (snd (ytdlp_try w u v s)))"
  by (simp add: downloadAndCleanYtDlpTranscript_def split: prod.splits sum.splits)

lemma caption_trace:
  "\<exists>evs. trace (snd (downloadAndCleanYtDlpTranscript w u v s)) =
     trace s @ Console StartingYtDlpDownload # Exec (ytdlp_command u v) # evs \<and> list_all quiet evs"
proof -
  define s1 where "s1 = snd (ytdlp_try w u v s)"
  define s2 where "s2 = (case fst (ytdlp_try w u v s) of Inr r \<Rightarrow> s1 | Inl e \<Rightarrow> ytdlp_catch e s1)"
  obtain e1 where
    e1: "trace s1 = trace s @ Console StartingYtDlpDownload # Exec (ytdlp_command u v) # e1"
      "list_all quiet e1"
    unfolding s1_def using ytdlp_try_trace by blast
  obtain e2 where e2: "trace s2 = trace s1 @ e2" "list_all quiet e2"
  proof (cases "fst (ytdlp_try w u v s)")
    case (Inl e)
    then show ?thesis using ytdlp_catch_trace[of e s1] that by (auto simp: s2_def)
  next
    case (Inr r)
    then show ?thesis using that[of "[]"] by (simp add: s2_def)
  qed
  obtain e3 where e3: "trace (safeDeleteFile w (tempVttFile v) s2) = trace s2 @ e3"
      "list_all quiet e3"
    using safeDeleteFile_trace by blast
  have "snd (downloadAndCleanYtDlpTranscript w u v s) = safeDeleteFile w (tempVttFile v) s2"
    unfolding caption_snd s2_def s1_def by (rule refl)
  with e1 e2 e3 show ?thesis by simp
qed

lemma caption_nonempty:
  "fst (downloadAndCleanYtDlpTranscript w u v s) = Some t \<Longrightarrow> t \<noteq> []"
  by (auto simp: caption_fst dest: ytdlp_try_nonempty split: sum.splits)

lemma caption_dir [simp]:
  "transcripts_dir (snd (downloadAndCleanYtDlpTranscript w u v s)) = transcripts_dir s"
  by (simp add: caption_snd split: sum.splits)

lemma caption_files:
  "files (snd (downloadAndCleanYtDlpTranscript w u v s)) q =
     (if q = tempVttFile v
      then (if unlink_fault w (tempVttFile v) = None then None
            else (case ytdlp_output w of None \<Rightarrow> files s q | Some c \<Rightarrow> Some c))
      else files s q)"
  by (simp add: caption_snd safeDeleteFile_files ytdlp_try_files split: sum.splits option.splits)

lemma caption_logged:
  "files (snd (downloadAndCleanYtDlpTranscript w u v s)) (tempVttFile v) = None \<or>
   (\<exists>e. unlink_fault w (tempVttFile v) = Some e \<and>
        Console (CouldNotDeleteTemporaryFile (tempVttFile v) e)
          \<in> set (trace (snd (downloadAndCleanYtDlpTranscript w u v s))))"
  unfolding caption_snd by (rule safeDeleteFile_logged)

subsection \<open>The audio method\<close>

lemma ensure_fst:
  "transcripts_dir s \<or> mkdir_fault w = None \<Longrightarrow> fst (ensureTranscriptsDirectory w s) = None"
  by (auto simp: ensureTranscriptsDirectory_def Let_def split: option.splits)

lemma ensure_files [simp]: "files (snd (ensureTranscriptsDirectory w s)) = files s"
  by (simp add: ensureTranscriptsDirectory_def Let_def split: option.splits)

lemma ensure_trace:
  "\<exists>evs. trace (snd (ensureTranscriptsDirectory w s)) = trace s @ evs \<and>
     list_all (\<lambda>e. \<not> is_service_call e) evs"
  by (simp add: ensureTranscriptsDirectory_def Let_def split: option.splits)

lemma downloadAudio_fst:
  "fst (downloadAudio w u p s) =
     (case download_outcome w of
        CreateWriteStreamThrows e \<Rightarrow> Some e
      | YtdlThrows e \<Rightarrow> Some e
      | DownloadEnds \<Rightarrow> None
      | DownloadFails e \<Rightarrow> Some e
      | WriteFails e \<Rightarrow> Some e
      | TimerFires \<Rightarrow> Some download_timeout)"
  by (simp add: downloadAudio_def Let_def split: download_outcome.splits)

lemma downloadAudio_files:
  "files (snd (downloadAudio w u p s)) q =
     (case download_outcome w of
        CreateWriteStreamThrows e \<Rightarrow> files s q
      | YtdlThrows e \<Rightarrow> files s q
      | _ \<Rightarrow> (case download_file w of
                None \<Rightarrow> files s q
              | Some c \<Rightarrow> if q = p then Some c else files s q))"
  by (simp add: downloadAudio_def Let_def split: download_outcome.splits option.splits)

lemma downloadAudio_still_opening:
  "still_opening (snd (downloadAudio w u p s)) =
     (case download_outcome w of
        YtdlThrows e \<Rightarrow> still_opening s @ [p]
      | _ \<Rightarrow> still_opening s)"
  by (simp add: downloadAudio_def Let_def split: download_outcome.splits option.splits)

lemma downloadAudio_trace:
  "\<exists>evs. trace (snd (downloadAudio w u p s)) = trace s @ evs \<and>
     list_all (\<lambda>e. \<not> is_transcription e) evs"
  by (simp add: downloadAudio_def Let_def split: download_outcome.splits option.splits)

lemma downloadAudio_timeout:
  "download_outcome w = TimerFires \<Longrightarrow>
   fst (downloadAudio w u p s) = Some download_timeout \<and>
   trace (snd (downloadAudio w u p s)) =
     trace s @ [CreateWriteStream p, YtdlDownload u, DestroyDownloadStream, DestroyAudioStream]"
  by (simp add: downloadAudio_def Let_def split: option.splits)

lemma downloadAudio_None:
  "downloadAudio w u p s = (None, s') \<Longrightarrow> download_outcome w = DownloadEnds"
  using downloadAudio_fst[of w u p s] by (simp split: download_outcome.splits)

lemma transcribe_audio_fails:
  "(case transcribe_result w of Inl e \<Rightarrow> True | Inr reply \<Rightarrow> reply_error reply \<noteq> None) \<Longrightarrow>
   isl (fst (transcribe_audio w v d s))"
  by (auto simp: transcribe_audio_def Let_def split: sum.splits option.splits)

lemma audio_try_fails: "audio_failure w \<Longrightarrow> isl (fst (audio_try w u v s))"
  by (auto simp: audio_failure_def audio_try_def Let_def transcribe_audio_fails
      dest: downloadAudio_None split: sum.splits prod.splits option.splits)

lemma audio_try_trace_early:
  "before_transcription w \<Longrightarrow>
   \<exists>evs. trace (snd (audio_try w u v s)) = trace s @ evs \<and>
     list_all (\<lambda>e. \<not> is_transcription e) evs"
proof -
  assume b: "before_transcription w"
  let ?s4 = "emit (Console DownloadingVideoAudio) (emit YtdlChooseFormat
     (emit (YtdlGetInfo u) (emit (Console FetchingVideoMetadata) s)))"
  obtain evs where evs: "trace (snd (downloadAudio w u (audioFilePath v) ?s4)) = trace ?s4 @ evs"
    "list_all (\<lambda>e. \<not> is_transcription e) evs"
    using downloadAudio_trace by blast
  from b evs show ?thesis
    by (auto simp: before_transcription_def audio_try_def Let_def
        dest: downloadAudio_None split: sum.splits prod.splits option.splits)
qed

lemma audio_catch_trace:
  "\<exists>evs. trace (audio_catch w e v s) = trace s @ evs \<and> list_all quiet evs"
proof -
  define s2 where "s2 = (let s1 = emit (Console (ErrorInExtractTranscript e)) s in
          (case e of
                  Error m err \<Rightarrow>
                    (let t1 = (if str_includes m ''Could not extract functions'' \<or>
                                  str_includes m ''Video unavailable''
                               then emit (Console TipYouTubeApiChanges) s1 else s1)
                     in if str_includes m ''403'' \<or> str_includes m ''429''
                        then emit (Console TipRateLimiting) t1 else t1)
                | NonError \<Rightarrow> s1))"
  have "\<exists>e2. trace s2 = trace s @ e2 \<and> list_all quiet e2"
    by (simp add: s2_def Let_def quiet_def split: thrown.splits)
  then obtain e2 where e2: "trace s2 = trace s @ e2" "list_all quiet e2" by blast
  obtain e3 where e3: "trace (safeDeleteFile w (audioFilePath v) s2) = trace s2 @ e3"
    "list_all quiet e3"
    using safeDeleteFile_trace by blast
  have "audio_catch w e v s = safeDeleteFile w (audioFilePath v) s2"
    unfolding audio_catch_def s2_def Let_def by (rule refl)
  with e2 e3 show ?thesis by simp
qed

lemma audio_catch_logged:
  "files (audio_catch w e v s) (audioFilePath v) = None \<or>
   (\<exists>x. unlink_fault w (audioFilePath v) = Some x \<and>
        Console (CouldNotDeleteTemporaryFile (audioFilePath v) x)
          \<in> set (trace (audio_catch w e v s)))"
  unfolding audio_catch_def Let_def by (rule safeDeleteFile_logged)

lemma audio_catch_files:
  "files (audio_catch w e v s) q =
     (if q = audioFilePath v \<and> unlink_fault w (audioFilePath v) = None then None
      else files s q)"
  by (simp add: audio_catch_def Let_def safeDeleteFile_files split: thrown.splits)

lemma fallback_no_key:
  "env_DEEPGRAM_API_KEY w = None \<or> env_DEEPGRAM_API_KEY w = Some [] \<Longrightarrow>
   deepgram_fallback w u v s = (Inl deepgram_key_not_set, emit (Console FallingBackToDeepgram) s)"
  by (auto simp: deepgram_fallback_def Let_def)

lemma fallback_setup:
  assumes "env_DEEPGRAM_API_KEY w = Some k" "k \<noteq> []" "createClient_fault w = None"
    "transcripts_dir s \<or> mkdir_fault w = None"
  shows "deepgram_fallback w u v s =
     (case audio_try w u v
             (snd (ensureTranscriptsDirectory w
                (emit (DeepgramCreateClient k) (emit (Console FallingBackToDeepgram) s)))) of
        (Inr r, s4) \<Rightarrow> (Inr r, s4)
      | (Inl e, s4) \<Rightarrow> (Inr null_result, audio_catch w e v s4))"
proof -
  let ?s2 = "emit (DeepgramCreateClient k) (emit (Console FallingBackToDeepgram) s)"
  from assms(4) have "fst (ensureTranscriptsDirectory w ?s2) = None"
    by (intro ensure_fst) simp
  then obtain s3 where "ensureTranscriptsDirectory w ?s2 = (None, s3)"
    by (cases "ensureTranscriptsDirectory w ?s2") auto
  with assms(1-3) show ?thesis
    by (simp add: deepgram_fallback_def Let_def)
qed

lemma safeDeleteFile_prefix: "prefix (trace s) (trace (safeDeleteFile w p s))"
  using safeDeleteFile_trace[of w p s] by (auto simp: prefix_def)

lemma downloadAudio_prefix: "prefix (trace s) (trace (snd (downloadAudio w u p s)))"
  using downloadAudio_trace[of w u p s] by (auto simp: prefix_def)

lemma transcribe_audio_prefix: "prefix (trace s) (trace (snd (transcribe_audio w v d s)))"
proof -
  have "prefix (trace s) (trace (safeDeleteFile w p (emit a (emit b (emit c s)))))" for p a b c
    using safeDeleteFile_prefix[of "emit a (emit b (emit c s))" w p]
    by (auto simp: prefix_def)
  then show ?thesis
    by (auto simp: transcribe_audio_def Let_def prefix_append split: sum.splits option.splits)
qed

lemma audio_try_prefix: "prefix (trace s) (trace (snd (audio_try w u v s)))"
proof -
  let ?s4 = "emit (Console DownloadingVideoAudio) (emit YtdlChooseFormat
     (emit (YtdlGetInfo u) (emit (Console FetchingVideoMetadata) s)))"
  have s4: "prefix (trace s) (trace ?s4)" by simp
  have d: "prefix (trace ?s4) (trace (snd (downloadAudio w u (audioFilePath v) ?s4)))"
    by (rule downloadAudio_prefix)
  have t: "prefix (trace (snd (downloadAudio w u (audioFilePath v) ?s4)))
     (trace (snd (transcribe_audio w v x (snd (downloadAudio w u (audioFilePath v) ?s4)))))" for x
    by (rule transcribe_audio_prefix)
  from s4 d have sd: "prefix (trace s) (trace (snd (downloadAudio w u (audioFilePath v) ?s4)))"
    by (rule prefix_order.trans)
  from sd t have st: "prefix (trace s)
     (trace (snd (transcribe_audio w v x (snd (downloadAudio w u (audioFilePath v) ?s4)))))" for x
    by (rule prefix_order.trans)
  show ?thesis
    using sd st
    by (cases "downloadAudio w u (audioFilePath v) ?s4")
       (auto simp: audio_try_def Let_def split: sum.splits option.splits)
qed

lemma audio_catch_prefix: "prefix (trace s) (trace (audio_catch w e v s))"
  using audio_catch_trace[of w e v s] by (auto simp: prefix_def)

lemma ensure_prefix: "prefix (trace s) (trace (snd (ensureTranscriptsDirectory w s)))"
  using ensure_trace[of w s] by (auto simp: prefix_def)

lemma fallback_prefix: "prefix (trace s) (trace (snd (deepgram_fallback w u v s)))"
proof -
  have e: "prefix (trace s) (trace (snd (ensureTranscriptsDirectory w
      (emit (DeepgramCreateClient k) (emit (Console FallingBackToDeepgram) s)))))" for k
    using ensure_prefix[of "emit (DeepgramCreateClient k) (emit (Console FallingBackToDeepgram) s)" w]
    by (auto simp: prefix_def)
  have a: "prefix (trace s) (trace (snd (audio_try w u v (snd (ensureTranscriptsDirectory w
      (emit (DeepgramCreateClient k) (emit (Console FallingBackToDeepgram) s)))))))"
    (is "prefix _ (trace (snd (audio_try w u v (?s3 k))))") for k
    using e[of k] audio_try_prefix prefix_order.trans by blast
  have c: "prefix (trace s) (trace (audio_catch w x v (snd (audio_try w u v (?s3 k)))))" for k x
    using a[of k] audio_catch_prefix prefix_order.trans by blast
  show ?thesis
  proof (cases "env_DEEPGRAM_API_KEY w")
    case None
    then show ?thesis by (simp add: deepgram_fallback_def Let_def)
  next
    case (Some k)
    show ?thesis
    proof (cases "ensureTranscriptsDirectory w
        (emit (DeepgramCreateClient k) (emit (Console FallingBackToDeepgram) s))")
      case (Pair f s3)
      with e[of k] have s3: "prefix (trace s) (trace s3)" by simp
      show ?thesis
      proof (cases "audio_try w u v s3")
        case (Pair r s4)
        with a[of k] \<open>ensureTranscriptsDirectory w _ = (f, s3)\<close>
        have s4: "prefix (trace s) (trace s4)" by simp
        from c[of _ k] \<open>ensureTranscriptsDirectory w _ = (f, s3)\<close> Pair
        have s5: "prefix (trace s) (trace (audio_catch w x v s4))" for x by simp
        from Some \<open>ensureTranscriptsDirectory w _ = (f, s3)\<close> Pair s3 s4 s5 show ?thesis
          by (auto simp: deepgram_fallback_def Let_def split: sum.splits option.splits)
      qed
    qed
  qed
qed

lemma transcribe_audio_tag:
  "fst (transcribe_audio w v d s) = Inr r \<Longrightarrow> method_tag r = Deepgram"
  by (auto simp: transcribe_audio_def Let_def split: sum.splits option.splits)

lemma audio_try_tag: "fst (audio_try w u v s) = Inr r \<Longrightarrow> method_tag r = Deepgram"
  by (auto simp: audio_try_def Let_def dest: transcribe_audio_tag
      split: sum.splits option.splits prod.splits if_splits)

lemma fallback_tag: "fst (deepgram_fallback w u v s) = Inr r \<Longrightarrow> method_tag r = Deepgram"
proof -
  assume a: "fst (deepgram_fallback w u v s) = Inr r"
  have n: "method_tag null_result = Deepgram" by (simp add: null_result_def)
  have t: "\<And>s' x. audio_try w u v s' = (Inr r, x) \<Longrightarrow> method_tag r = Deepgram"
    using audio_try_tag by (metis fst_conv)
  from a show ?thesis
    by (auto simp: deepgram_fallback_def Let_def n dest: t
        split: option.splits if_splits prod.splits sum.splits)
qed

lemma captions_result_fst:
  "fst (captions_result w u t s) =
     \<lparr>transcript = Some t, speakers = None, method_tag = YoutubeCaptionsYdlp, confidence = None,
      metadata = (case getInfo_result w of Inr d \<Rightarrow> Some (metadata_of d) | Inl e \<Rightarrow> None)\<rparr>"
  by (simp add: captions_result_def Let_def split: sum.splits)

lemma captions_result_trace:
  "\<exists>evs. trace (snd (captions_result w u t s)) = trace s @ evs \<and>
     list_all (\<lambda>e. \<not> is_audio_call e) evs"
  by (simp add: captions_result_def Let_def split: sum.splits)

lemma captions_result_files [simp]: "files (snd (captions_result w u t s)) = files s"
  by (simp add: captions_result_def Let_def split: sum.splits)

lemma extract_captions:
  assumes "u \<noteq> []" "v \<noteq> []" "fst (downloadAndCleanYtDlpTranscript w u v s) = Some t"
  shows "extractTranscript w u v s =
     (Inr (fst (captions_result w u t (snd (downloadAndCleanYtDlpTranscript w u v s)))),
      snd (captions_result w u t (snd (downloadAndCleanYtDlpTranscript w u v s))))"
proof -
  from assms(3) have "t \<noteq> []" by (rule caption_nonempty)
  with assms show ?thesis
    by (cases "downloadAndCleanYtDlpTranscript w u v s")
       (simp add: extractTranscript_def split: prod.splits)
qed

lemma extract_fallback:
  assumes "u \<noteq> []" "v \<noteq> []" "fst (downloadAndCleanYtDlpTranscript w u v s) = None"
  shows "extractTranscript w u v s =
     deepgram_fallback w u v (snd (downloadAndCleanYtDlpTranscript w u v s))"
  using assms
  by (cases "downloadAndCleanYtDlpTranscript w u v s") (simp add: extractTranscript_def)

lemma quiet_not_audio: "list_all quiet evs \<Longrightarrow> list_all (\<lambda>e. \<not> is_audio_call e) evs"
  by (simp add: list_all_iff quiet_def)

subsection \<open>The two methods in order\<close>

text \<open>
  C1. In every run with a non-empty URL and a non-empty video identifier the caption method
  comes first: the run starts with the call of the subtitle tool. When the caption method
  gives a paragraph, the paragraph is not empty, the result carries it with the caption tag,
  and no call of the audio method (in particular no call to the speech-to-text client) is
  made. The audio method runs only when the caption method gave null, and a result with the
  speech-to-text tag comes only from such a run.
\<close>

theorem captions_first_and_exclusive:
  assumes "youtubeUrl \<noteq> []" and "videoId \<noteq> []"
  shows
   "(\<exists>evs. trace (snd (extractTranscript w youtubeUrl videoId (initial fs dir))) =
        Console StartingYtDlpDownload # Exec (ytdlp_command youtubeUrl videoId) # evs) \<and>
    (\<forall>t. fst (downloadAndCleanYtDlpTranscript w youtubeUrl videoId (initial fs dir)) = Some t \<longrightarrow>
        t \<noteq> [] \<and>
        (\<exists>md. fst (extractTranscript w youtubeUrl videoId (initial fs dir)) =
           Inr \<lparr>transcript = Some t, speakers = None, method_tag = YoutubeCaptionsYdlp,
                confidence = None, metadata = md\<rparr>) \<and>
        list_all (\<lambda>e. \<not> is_audio_call e)
          (trace (snd (extractTranscript w youtubeUrl videoId (initial fs dir))))) \<and>
    (fst (downloadAndCleanYtDlpTranscript w youtubeUrl videoId (initial fs dir)) = None \<longrightarrow>
        extractTranscript w youtubeUrl videoId (initial fs dir) =
          deepgram_fallback w youtubeUrl videoId
            (snd (downloadAndCleanYtDlpTranscript w youtubeUrl videoId (initial fs dir)))) \<and>
    ((\<exists>e \<in> set (trace (snd (extractTranscript w youtubeUrl videoId (initial fs dir)))).
         is_audio_call e) \<longrightarrow>
        fst (downloadAndCleanYtDlpTranscript w youtubeUrl videoId (initial fs dir)) = None) \<and>
    (\<forall>r. fst (extractTranscript w youtubeUrl videoId (initial fs dir)) = Inr r \<and>
         method_tag r = Deepgram \<longrightarrow>
        fst (downloadAndCleanYtDlpTranscript w youtubeUrl videoId (initial fs dir)) = None)"
proof -
  let ?s = "initial fs dir"
  let ?cap = "downloadAndCleanYtDlpTranscript w youtubeUrl videoId ?s"
  let ?run = "extractTranscript w youtubeUrl videoId ?s"
  obtain e1 where e1: "trace (snd ?cap) =
      Console StartingYtDlpDownload # Exec (ytdlp_command youtubeUrl videoId) # e1"
      "list_all quiet e1"
    using caption_trace[of w youtubeUrl videoId ?s] by (auto simp: initial_def)
  have captions: "t \<noteq> [] \<and>
        (\<exists>md. fst ?run = Inr \<lparr>transcript = Some t, speakers = None,
           method_tag = YoutubeCaptionsYdlp, confidence = None, metadata = md\<rparr>) \<and>
        list_all (\<lambda>e. \<not> is_audio_call e) (trace (snd ?run)) \<and>
        (\<exists>evs. trace (snd ?run) =
           Console StartingYtDlpDownload # Exec (ytdlp_command youtubeUrl videoId) # evs)"
    if t: "fst ?cap = Some t" for t
  proof -
    note run = extract_captions[OF assms t]
    obtain e2 where e2: "trace (snd (captions_result w youtubeUrl t (snd ?cap))) =
        trace (snd ?cap) @ e2" "list_all (\<lambda>e. \<not> is_audio_call e) e2"
      using captions_result_trace by blast
    from t have "t \<noteq> []" by (rule caption_nonempty)
    moreover have "\<exists>md. fst ?run = Inr \<lparr>transcript = Some t, speakers = None,
           method_tag = YoutubeCaptionsYdlp, confidence = None, metadata = md\<rparr>"
      by (simp add: run captions_result_fst)
    moreover have "list_all (\<lambda>e. \<not> is_audio_call e) (trace (snd ?run))"
      using e1 e2 quiet_not_audio[OF e1(2)] by (simp add: run)
    moreover have "\<exists>evs. trace (snd ?run) =
           Console StartingYtDlpDownload # Exec (ytdlp_command youtubeUrl videoId) # evs"
      using e1 e2 by (simp add: run)
    ultimately show ?thesis by blast
  qed
  have fallback: "?run = deepgram_fallback w youtubeUrl videoId (snd ?cap)"
    if "fst ?cap = None"
    using extract_fallback[OF assms that] .
  have first: "\<exists>evs. trace (snd ?run) =
        Console StartingYtDlpDownload # Exec (ytdlp_command youtubeUrl videoId) # evs"
  proof (cases "fst ?cap")
    case None
    have "\<exists>evs. trace (snd (deepgram_fallback w youtubeUrl videoId (snd ?cap))) =
        trace (snd ?cap) @ evs"
      using fallback_prefix[of "snd ?cap" w youtubeUrl videoId] by (auto simp: prefix_def)
    with e1 fallback[OF None] show ?thesis by auto
  next
    case (Some t)
    with captions show ?thesis by blast
  qed
  have only_null: "fst ?cap = None" if "fst ?run = Inr r" "method_tag r = Deepgram" for r
  proof (cases "fst ?cap")
    case None
    then show ?thesis .
  next
    case (Some t)
    with captions[OF Some] that show ?thesis by auto
  qed
  have audio_null: "fst ?cap = None" if "\<exists>e \<in> set (trace (snd ?run)). is_audio_call e"
  proof (cases "fst ?cap")
    case None
    then show ?thesis .
  next
    case (Some t)
    with captions[OF Some] that show ?thesis by (auto simp: list_all_iff)
  qed
  from first captions fallback audio_null only_null show ?thesis by blast
qed

theorem captions_first_and_exclusive_witness:
  "fst (downloadAndCleanYtDlpTranscript sample_world ''u'' ''v'' (initial Map.empty True))
     = Some (ascii ''hi'') \<and>
   (\<exists>md. fst (extractTranscript sample_world ''u'' ''v'' (initial Map.empty True)) =
      Inr \<lparr>transcript = Some (ascii ''hi''), speakers = None, method_tag = YoutubeCaptionsYdlp,
           confidence = None, metadata = md\<rparr>) \<and>
   list_all (\<lambda>e. \<not> is_audio_call e)
     (trace (snd (extractTranscript sample_world ''u'' ''v'' (initial Map.empty True)))) \<and>
   fst (downloadAndCleanYtDlpTranscript (sample_world\<lparr>ytdlp_output := None\<rparr>) ''u'' ''v''
          (initial Map.empty True)) = None \<and>
   extractTranscript (sample_world\<lparr>ytdlp_output := None\<rparr>) ''u'' ''v'' (initial Map.empty True) =
     deepgram_fallback (sample_world\<lparr>ytdlp_output := None\<rparr>) ''u'' ''v''
       (snd (downloadAndCleanYtDlpTranscript (sample_world\<lparr>ytdlp_output := None\<rparr>) ''u'' ''v''
          (initial Map.empty True)))"
proof -
  have u: "''u'' \<noteq> []" and v: "''v'' \<noteq> []" by simp_all
  have some: "fst (downloadAndCleanYtDlpTranscript sample_world ''u'' ''v''
      (initial Map.empty True)) = Some (ascii ''hi'')"
    by (simp add: run_eval text_eval)
  have none: "fst (downloadAndCleanYtDlpTranscript (sample_world\<lparr>ytdlp_output := None\<rparr>)
      ''u'' ''v'' (initial Map.empty True)) = None"
    by (simp add: run_eval text_eval)
  from captions_first_and_exclusive [OF u v, of sample_world Map.empty True]
    captions_first_and_exclusive [OF u v, of "sample_world\<lparr>ytdlp_output := None\<rparr>"
      Map.empty True]
    some none
  show ?thesis by simp
qed

lemma fallback_starts:
  "prefix (trace s @ [Console FallingBackToDeepgram]) (trace (snd (deepgram_fallback w u v s)))"
proof -
  let ?s1 = "emit (Console FallingBackToDeepgram) s"
  have e: "prefix (trace ?s1) (trace (snd (ensureTranscriptsDirectory w
      (emit (DeepgramCreateClient k) ?s1))))" for k
    using ensure_prefix[of "emit (DeepgramCreateClient k) ?s1" w]
    by (auto simp: prefix_def)
  have a: "prefix (trace ?s1) (trace (snd (audio_try w u v (snd (ensureTranscriptsDirectory w
      (emit (DeepgramCreateClient k) ?s1))))))"
    (is "prefix _ (trace (snd (audio_try w u v (?s3 k))))") for k
    using e[of k] audio_try_prefix prefix_order.trans by blast
  have c: "prefix (trace ?s1) (trace (audio_catch w x v (snd (audio_try w u v (?s3 k)))))" for k x
    using a[of k] audio_catch_prefix prefix_order.trans by blast
  have "prefix (trace ?s1) (trace (snd (deepgram_fallback w u v s)))"
  proof (cases "env_DEEPGRAM_API_KEY w")
    case None
    then show ?thesis by (simp add: deepgram_fallback_def Let_def)
  next
    case (Some k)
    show ?thesis
    proof (cases "ensureTranscriptsDirectory w (emit (DeepgramCreateClient k) ?s1)")
      case (Pair f s3)
      with e[of k] have s3: "prefix (trace ?s1) (trace s3)" by simp
      show ?thesis
      proof (cases "audio_try w u v s3")
        case (Pair r s4)
        with a[of k] \<open>ensureTranscriptsDirectory w _ = (f, s3)\<close>
        have s4: "prefix (trace ?s1) (trace s4)" by simp
        from c[of _ k] \<open>ensureTranscriptsDirectory w _ = (f, s3)\<close> Pair
        have s5: "prefix (trace ?s1) (trace (audio_catch w x v s4))" for x by simp
        from Some \<open>ensureTranscriptsDirectory w _ = (f, s3)\<close> Pair s3 s4 s5 show ?thesis
          by (auto simp: deepgram_fallback_def Let_def split: sum.splits option.splits)
      qed
    qed
  qed
  then show ?thesis by simp
qed

subsection \<open>The missing speech-to-text key\<close>

text \<open>
  C3. When the caption method gives no transcript and the key \<^verbatim>\<open>DEEPGRAM_API_KEY\<close> is
  absent (or empty), \<^verbatim>\<open>extractTranscript\<close> throws the configuration error right after the
  fall-back message: the run makes no call to the speech-to-text client, no metadata fetch,
  no audio download and no other call of the audio method.
\<close>

theorem missing_key_fails_before_audio:
  assumes "youtubeUrl \<noteq> []" and "videoId \<noteq> []"
    and "fst (downloadAndCleanYtDlpTranscript w youtubeUrl videoId (initial fs dir)) = None"
    and "env_DEEPGRAM_API_KEY w = None \<or> env_DEEPGRAM_API_KEY w = Some []"
  shows "extractTranscript w youtubeUrl videoId (initial fs dir) =
       (Inl deepgram_key_not_set,
        emit (Console FallingBackToDeepgram)
          (snd (downloadAndCleanYtDlpTranscript w youtubeUrl videoId (initial fs dir)))) \<and>
     list_all (\<lambda>e. \<not> is_stt_call e \<and> \<not> is_audio_call e \<and> \<not> is_service_call e)
       (trace (snd (extractTranscript w youtubeUrl videoId (initial fs dir))))"
proof -
  let ?cap = "downloadAndCleanYtDlpTranscript w youtubeUrl videoId (initial fs dir)"
  have run: "extractTranscript w youtubeUrl videoId (initial fs dir) =
       (Inl deepgram_key_not_set, emit (Console FallingBackToDeepgram) (snd ?cap))"
    using extract_fallback[OF assms(1-3)] fallback_no_key[OF assms(4)] by simp
  obtain evs where evs: "trace (snd ?cap) =
      Console StartingYtDlpDownload # Exec (ytdlp_command youtubeUrl videoId) # evs"
      "list_all quiet evs"
    using caption_trace[of w youtubeUrl videoId "initial fs dir"] by (auto simp: initial_def)
  have q: "quiet e \<Longrightarrow> \<not> is_stt_call e \<and> \<not> is_audio_call e \<and> \<not> is_service_call e" for e
    by (cases e) (simp_all add: quiet_def)
  from evs(2) have "list_all (\<lambda>e. \<not> is_stt_call e \<and> \<not> is_audio_call e \<and> \<not> is_service_call e) evs"
    unfolding list_all_iff using q by blast
  with evs(1) run show ?thesis by simp
qed

theorem missing_key_fails_before_audio_witness:
  "extractTranscript (sample_world\<lparr>ytdlp_output := None, env_DEEPGRAM_API_KEY := None\<rparr>)
      ''u'' ''v'' (initial Map.empty True) =
     (Inl (Error ''DEEPGRAM_API_KEY is not set in environment variables.'' None),
      \<lparr>files = Map.empty, transcripts_dir = True,
       trace = [Console StartingYtDlpDownload, Exec (ytdlp_command ''u'' ''v''),
                Console DownloadCommandFinished,
                Console (ReadingAndCleaningFile ''transcripts/v.en.vtt''),
                ReadFile ''transcripts/v.en.vtt'',
                Console (YtDlpMethodError ENOENT),
                ExistsSync ''transcripts/v.en.vtt'',
                Console FallingBackToDeepgram],
       still_opening = []\<rparr>)"
proof -
  let ?w = "sample_world\<lparr>ytdlp_output := None, env_DEEPGRAM_API_KEY := None\<rparr>"
  have u: "''u'' \<noteq> []" and v: "''v'' \<noteq> []" by simp_all
  have none: "fst (downloadAndCleanYtDlpTranscript ?w ''u'' ''v'' (initial Map.empty True)) = None"
    by (simp add: run_eval)
  have key: "env_DEEPGRAM_API_KEY ?w = None \<or> env_DEEPGRAM_API_KEY ?w = Some []"
    by (simp add: sample_world_def)
  have st: "emit (Console FallingBackToDeepgram)
      (snd (downloadAndCleanYtDlpTranscript ?w ''u'' ''v'' (initial Map.empty True))) =
     \<lparr>files = Map.empty, transcripts_dir = True,
       trace = [Console StartingYtDlpDownload, Exec (ytdlp_command ''u'' ''v''),
                Console DownloadCommandFinished,
                Console (ReadingAndCleaningFile ''transcripts/v.en.vtt''),
                ReadFile ''transcripts/v.en.vtt'',
                Console (YtDlpMethodError ENOENT),
                ExistsSync ''transcripts/v.en.vtt'',
                Console FallingBackToDeepgram],
       still_opening = []\<rparr>"
    by (simp add: run_eval)
  from missing_key_fails_before_audio [OF u v none key] show ?thesis
    unfolding st by (simp add: deepgram_key_not_set_def)
qed

subsection \<open>Subtitle files without text\<close>

lemma ytdlp_try_content:
  assumes "ytdlp_fault w = None" "readFile_fault w = None" "ytdlp_output w = Some c"
  shows "fst (ytdlp_try w u v s) = Inr (cleaned_transcript c)"
  using assms by (simp add: ytdlp_try_def Let_def read_file_def split: option.splits)

text \<open>
  C7. When every line of the subtitle file is empty, a header, a cue-timing line, a
  cue-index line, a markup line or a bracketed-annotation line, the cleaned paragraph is
  empty, the caption method gives null, and \<^verbatim>\<open>extractTranscript\<close> goes on with the audio
  method: the run is the fall-back, which starts with the fall-back message.
\<close>

theorem noise_only_falls_back:
  assumes "youtubeUrl \<noteq> []" and "videoId \<noteq> []"
    and "ytdlp_fault w = None" and "readFile_fault w = None" and "ytdlp_output w = Some c"
    and "noise_only c"
  shows "full_paragraph c = [] \<and>
     fst (downloadAndCleanYtDlpTranscript w youtubeUrl videoId s) = None \<and>
     extractTranscript w youtubeUrl videoId s =
       deepgram_fallback w youtubeUrl videoId
         (snd (downloadAndCleanYtDlpTranscript w youtubeUrl videoId s)) \<and>
     prefix (trace (snd (downloadAndCleanYtDlpTranscript w youtubeUrl videoId s)) @
             [Console FallingBackToDeepgram])
       (trace (snd (extractTranscript w youtubeUrl videoId s)))"
proof -
  from assms(6) have c: "full_paragraph c = []" "cleaned_transcript c = None"
    using noise_only_cleaned by blast+
  have cap: "fst (downloadAndCleanYtDlpTranscript w youtubeUrl videoId s) = None"
    by (simp add: caption_fst ytdlp_try_content[OF assms(3-5)] c)
  note run = extract_fallback[OF assms(1,2) cap]
  from c(1) cap run fallback_starts show ?thesis by simp
qed

theorem noise_only_falls_back_witness:
  "noise_only (ascii ''WEBVTT'' @ [10] @ ascii ''1'' @ [10] @ ascii ''00:01 --> 00:02'' @ [10]
       @ ascii ''<c> </c>'' @ [10] @ ascii ''[Music] [Applause]'') \<and>
   fst (downloadAndCleanYtDlpTranscript
     (sample_world\<lparr>ytdlp_output := Some (ascii ''WEBVTT'' @ [10] @ ascii ''1'' @ [10]
         @ ascii ''00:01 --> 00:02'' @ [10] @ ascii ''<c> </c>'' @ [10]
         @ ascii ''[Music] [Applause]'')\<rparr>)
     ''u'' ''v'' (initial Map.empty True)) = None \<and>
   extractTranscript
     (sample_world\<lparr>ytdlp_output := Some (ascii ''WEBVTT'' @ [10] @ ascii ''1'' @ [10]
         @ ascii ''00:01 --> 00:02'' @ [10] @ ascii ''<c> </c>'' @ [10]
         @ ascii ''[Music] [Applause]'')\<rparr>)
     ''u'' ''v'' (initial Map.empty True) =
   deepgram_fallback
     (sample_world\<lparr>ytdlp_output := Some (ascii ''WEBVTT'' @ [10] @ ascii ''1'' @ [10]
         @ ascii ''00:01 --> 00:02'' @ [10] @ ascii ''<c> </c>'' @ [10]
         @ ascii ''[Music] [Applause]'')\<rparr>)
     ''u'' ''v''
     (snd (downloadAndCleanYtDlpTranscript
       (sample_world\<lparr>ytdlp_output := Some (ascii ''WEBVTT'' @ [10] @ ascii ''1'' @ [10]
           @ ascii ''00:01 --> 00:02'' @ [10] @ ascii ''<c> </c>'' @ [10]
           @ ascii ''[Music] [Applause]'')\<rparr>)
       ''u'' ''v'' (initial Map.empty True)))"
proof -
  let ?c = "ascii ''WEBVTT'' @ [10] @ ascii ''1'' @ [10] @ ascii ''00:01 --> 00:02'' @ [10]
       @ ascii ''<c> </c>'' @ [10] @ ascii ''[Music] [Applause]''"
  let ?w = "sample_world\<lparr>ytdlp_output := Some ?c\<rparr>"
  have u: "''u'' \<noteq> []" and v: "''v'' \<noteq> []" by simp_all
  have n: "noise_only ?c" by (simp add: text_eval)
  have w: "ytdlp_fault ?w = None" "readFile_fault ?w = None" "ytdlp_output ?w = Some ?c"
    by (simp_all add: sample_world_def)
  from noise_only_falls_back [OF u v w n, of "initial Map.empty True"] n
  show ?thesis by blast
qed

subsection \<open>Failures of the audio method\<close>

lemma transcription_is_service: "is_transcription e \<Longrightarrow> is_service_call e"
  by (cases e) simp_all

lemma no_service_no_transcription:
  "list_all (\<lambda>e. \<not> is_service_call e) evs \<Longrightarrow> list_all (\<lambda>e. \<not> is_transcription e) evs"
  unfolding list_all_iff using transcription_is_service by blast

lemma quiet_no_transcription:
  "list_all quiet evs \<Longrightarrow> list_all (\<lambda>e. \<not> is_transcription e) evs"
  unfolding list_all_iff quiet_def using transcription_is_service by blast

lemma before_transcription_failure: "before_transcription w \<Longrightarrow> audio_failure w"
  by (auto simp: before_transcription_def audio_failure_def)

lemma setup_okE:
  assumes "setup_ok w dir"
  obtains k where "env_DEEPGRAM_API_KEY w = Some k" "k \<noteq> []" "createClient_fault w = None"
    "dir \<or> mkdir_fault w = None"
  using assms by (auto simp: setup_ok_def)

lemma fallback_result:
  assumes "setup_ok w (transcripts_dir s)"
  shows "\<exists>s3. prefix (trace s) (trace s3) \<and> files s3 = files s \<and>
     deepgram_fallback w u v s =
       (case audio_try w u v s3 of
          (Inr r, s4) \<Rightarrow> (Inr r, s4)
        | (Inl e, s4) \<Rightarrow> (Inr null_result, audio_catch w e v s4)) \<and>
     (\<exists>evs. trace s3 = trace s @ evs \<and> list_all (\<lambda>e. \<not> is_transcription e) evs)"
proof -
  from assms obtain k where k: "env_DEEPGRAM_API_KEY w = Some k" "k \<noteq> []"
    "createClient_fault w = None" "transcripts_dir s \<or> mkdir_fault w = None"
    by (rule setup_okE)
  let ?s2 = "emit (DeepgramCreateClient k) (emit (Console FallingBackToDeepgram) s)"
  let ?s3 = "snd (ensureTranscriptsDirectory w ?s2)"
  obtain e3 where e3: "trace ?s3 = trace ?s2 @ e3" "list_all (\<lambda>e. \<not> is_service_call e) e3"
    using ensure_trace by blast
  have "trace ?s3 = trace s @ (Console FallingBackToDeepgram # DeepgramCreateClient k # e3)"
    using e3(1) by simp
  moreover have "list_all (\<lambda>e. \<not> is_transcription e)
      (Console FallingBackToDeepgram # DeepgramCreateClient k # e3)"
    using no_service_no_transcription[OF e3(2)] by simp
  moreover have "files ?s3 = files s" by simp
  moreover note fallback_setup[OF k, of u v]
  ultimately show ?thesis by (auto simp: prefix_def)
qed

text \<open>
  C2. Once the audio method has started (the caption method gave null, the key is set, the
  client and the working directory are there), \<^verbatim>\<open>extractTranscript\<close> does not throw: it
  returns a result. Whenever a step of the audio method fails (the metadata fetch, the
  choice of an audio format, the download by error or by timeout, the speech-to-text call),
  the transcript of that result is null.
\<close>

theorem audio_failures_return_null_transcript:
  assumes "youtubeUrl \<noteq> []" and "videoId \<noteq> []"
    and "fst (downloadAndCleanYtDlpTranscript w youtubeUrl videoId (initial fs dir)) = None"
    and "setup_ok w dir"
  shows "(\<exists>r. fst (extractTranscript w youtubeUrl videoId (initial fs dir)) = Inr r) \<and>
     (audio_failure w \<longrightarrow>
        (\<exists>r. fst (extractTranscript w youtubeUrl videoId (initial fs dir)) = Inr r \<and>
             transcript r = None))"
proof -
  let ?s1 = "snd (downloadAndCleanYtDlpTranscript w youtubeUrl videoId (initial fs dir))"
  have run: "extractTranscript w youtubeUrl videoId (initial fs dir) =
      deepgram_fallback w youtubeUrl videoId ?s1"
    by (rule extract_fallback[OF assms(1-3)])
  have "setup_ok w (transcripts_dir ?s1)"
    using assms(4) by (simp add: initial_def)
  then obtain s3 where s3: "deepgram_fallback w youtubeUrl videoId ?s1 =
       (case audio_try w youtubeUrl videoId s3 of
          (Inr r, s4) \<Rightarrow> (Inr r, s4)
        | (Inl e, s4) \<Rightarrow> (Inr null_result, audio_catch w e videoId s4))"
    using fallback_result by blast
  have returns: "\<exists>r. fst (extractTranscript w youtubeUrl videoId (initial fs dir)) = Inr r"
    unfolding run s3 by (simp split: prod.splits sum.splits)
  have null: "\<exists>r. fst (extractTranscript w youtubeUrl videoId (initial fs dir)) = Inr r \<and>
             transcript r = None" if "audio_failure w"
  proof -
    from that have "isl (fst (audio_try w youtubeUrl videoId s3))"
      by (rule audio_try_fails)
    then obtain e s4 where "audio_try w youtubeUrl videoId s3 = (Inl e, s4)"
      by (cases "audio_try w youtubeUrl videoId s3") (auto simp: isl_def)
    then show ?thesis
      unfolding run s3 by (simp add: null_result_def)
  qed
  from returns null show ?thesis by blast
qed

theorem audio_failures_return_null_transcript_witness:
  "audio_failure (sample_world\<lparr>ytdlp_output := None, getInfo_result := Inl (Error ''Video unavailable'' None)\<rparr>) \<and>
   audio_failure (sample_world\<lparr>ytdlp_output := None, chooseFormat_result := Inr False\<rparr>) \<and>
   audio_failure (sample_world\<lparr>ytdlp_output := None, download_outcome := DownloadFails (Error ''403'' None)\<rparr>) \<and>
   audio_failure (sample_world\<lparr>ytdlp_output := None, download_outcome := TimerFires\<rparr>) \<and>
   audio_failure (sample_world\<lparr>ytdlp_output := None,
      transcribe_result := Inr \<lparr>reply_result = None, reply_error = Some ''bad audio''\<rparr>\<rparr>) \<and>
   (\<exists>r. fst (extractTranscript
      (sample_world\<lparr>ytdlp_output := None, getInfo_result := Inl (Error ''Video unavailable'' None)\<rparr>)
      ''u'' ''v'' (initial Map.empty True)) = Inr r \<and> transcript r = None) \<and>
   (\<exists>r. fst (extractTranscript
      (sample_world\<lparr>ytdlp_output := None, chooseFormat_result := Inr False\<rparr>)
      ''u'' ''v'' (initial Map.empty True)) = Inr r \<and> transcript r = None) \<and>
   (\<exists>r. fst (extractTranscript
      (sample_world\<lparr>ytdlp_output := None, download_outcome := DownloadFails (Error ''403'' None)\<rparr>)
      ''u'' ''v'' (initial Map.empty True)) = Inr r \<and> transcript r = None) \<and>
   (\<exists>r. fst (extractTranscript
      (sample_world\<lparr>ytdlp_output := None, download_outcome := TimerFires\<rparr>)
      ''u'' ''v'' (initial Map.empty True)) = Inr r \<and> transcript r = None) \<and>
   (\<exists>r. fst (extractTranscript
      (sample_world\<lparr>ytdlp_output := None,
         transcribe_result := Inr \<lparr>reply_result = None, reply_error = Some ''bad audio''\<rparr>\<rparr>)
      ''u'' ''v'' (initial Map.empty True)) = Inr r \<and> transcript r = None)"
proof -
  have u: "''u'' \<noteq> []" and v: "''v'' \<noteq> []" by simp_all
  let ?w1 = "sample_world\<lparr>ytdlp_output := None, getInfo_result := Inl (Error ''Video unavailable'' None)\<rparr>"
  let ?w2 = "sample_world\<lparr>ytdlp_output := None, chooseFormat_result := Inr False\<rparr>"
  let ?w3 = "sample_world\<lparr>ytdlp_output := None, download_outcome := DownloadFails (Error ''403'' None)\<rparr>"
  let ?w4 = "sample_world\<lparr>ytdlp_output := None, download_outcome := TimerFires\<rparr>"
  let ?w5 = "sample_world\<lparr>ytdlp_output := None,
      transcribe_result := Inr \<lparr>reply_result = None, reply_error = Some ''bad audio''\<rparr>\<rparr>"
  have f: "audio_failure ?w1" "audio_failure ?w2" "audio_failure ?w3" "audio_failure ?w4"
    "audio_failure ?w5"
    by (simp_all add: run_eval)
  have cs: "fst (downloadAndCleanYtDlpTranscript ?w1 ''u'' ''v'' (initial Map.empty True)) = None"
    "fst (downloadAndCleanYtDlpTranscript ?w2 ''u'' ''v'' (initial Map.empty True)) = None"
    "fst (downloadAndCleanYtDlpTranscript ?w3 ''u'' ''v'' (initial Map.empty True)) = None"
    "fst (downloadAndCleanYtDlpTranscript ?w4 ''u'' ''v'' (initial Map.empty True)) = None"
    "fst (downloadAndCleanYtDlpTranscript ?w5 ''u'' ''v'' (initial Map.empty True)) = None"
    by (simp_all add: run_eval)
  have ss: "setup_ok ?w1 True" "setup_ok ?w2 True" "setup_ok ?w3 True" "setup_ok ?w4 True"
    "setup_ok ?w5 True"
    by (simp_all add: run_eval)
  from audio_failures_return_null_transcript [OF u v cs(1) ss(1)]
    audio_failures_return_null_transcript [OF u v cs(2) ss(2)]
    audio_failures_return_null_transcript [OF u v cs(3) ss(3)]
    audio_failures_return_null_transcript [OF u v cs(4) ss(4)]
    audio_failures_return_null_transcript [OF u v cs(5) ss(5)]
    f
  show ?thesis by blast
qed


lemma fallback_failure_result:
  assumes "setup_ok w (transcripts_dir s)" and "audio_failure w"
  shows "fst (deepgram_fallback w u v s) = Inr null_result"
proof -
  from assms(1) obtain s3 where s3: "deepgram_fallback w u v s =
       (case audio_try w u v s3 of
          (Inr r, s4) \<Rightarrow> (Inr r, s4)
        | (Inl e, s4) \<Rightarrow> (Inr null_result, audio_catch w e v s4))"
    using fallback_result by blast
  from assms(2) have "isl (fst (audio_try w u v s3))"
    by (rule audio_try_fails)
  then obtain e s4 where "audio_try w u v s3 = (Inl e, s4)"
    by (cases "audio_try w u v s3") (auto simp: isl_def)
  then show ?thesis unfolding s3 by simp
qed

lemma fallback_early_trace:
  assumes "setup_ok w (transcripts_dir s)" and "before_transcription w"
  shows "\<exists>evs. trace (snd (deepgram_fallback w u v s)) = trace s @ evs \<and>
     list_all (\<lambda>e. \<not> is_transcription e) evs"
proof -
  from assms(1) obtain s3 e3 where s3: "deepgram_fallback w u v s =
       (case audio_try w u v s3 of
          (Inr r, s4) \<Rightarrow> (Inr r, s4)
        | (Inl e, s4) \<Rightarrow> (Inr null_result, audio_catch w e v s4))"
    and e3: "trace s3 = trace s @ e3" "list_all (\<lambda>e. \<not> is_transcription e) e3"
    using fallback_result[of w s u v] by blast
  from assms(2) have "isl (fst (audio_try w u v s3))"
    using audio_try_fails before_transcription_failure by blast
  then obtain e s4 where a: "audio_try w u v s3 = (Inl e, s4)"
    by (cases "audio_try w u v s3") (auto simp: isl_def)
  obtain e4 where e4: "trace s4 = trace s3 @ e4" "list_all (\<lambda>e. \<not> is_transcription e) e4"
    using audio_try_trace_early[OF assms(2), of u v s3] a by auto
  obtain e5 where e5: "trace (audio_catch w e v s4) = trace s4 @ e5" "list_all quiet e5"
    using audio_catch_trace by blast
  have "trace (snd (deepgram_fallback w u v s)) = trace s @ (e3 @ e4 @ e5)"
    unfolding s3 a using e3(1) e4(1) e5(1) by simp
  moreover have "list_all (\<lambda>e. \<not> is_transcription e) (e3 @ e4 @ e5)"
    using e3(2) e4(2) quiet_no_transcription[OF e5(2)] by simp
  ultimately show ?thesis by blast
qed

text \<open>
  C10. On the error exit of the audio method the result is exactly: transcript null, tag
  \<^verbatim>\<open>deepgram\<close>, confidence, speakers and metadata absent. Two runs that fail at different
  steps give the same result, so metadata that was fetched before the failure is not in
  it; and the tag is \<^verbatim>\<open>deepgram\<close> also when the failure came before the audio was sent to
  the speech-to-text service, in which case the run holds no transcription call.
\<close>

theorem audio_error_exit_is_bare_deepgram_result:
  assumes "youtubeUrl \<noteq> []" and "videoId \<noteq> []"
    and "fst (downloadAndCleanYtDlpTranscript w youtubeUrl videoId (initial fs dir)) = None"
    and "setup_ok w dir" and "audio_failure w"
    and "fst (downloadAndCleanYtDlpTranscript w' youtubeUrl videoId (initial fs dir)) = None"
    and "setup_ok w' dir" and "audio_failure w'"
  shows "fst (extractTranscript w youtubeUrl videoId (initial fs dir)) =
       Inr \<lparr>transcript = None, speakers = None, method_tag = Deepgram, confidence = None,
            metadata = None\<rparr> \<and>
     fst (extractTranscript w' youtubeUrl videoId (initial fs dir)) =
       fst (extractTranscript w youtubeUrl videoId (initial fs dir)) \<and>
     (before_transcription w \<longrightarrow>
        list_all (\<lambda>e. \<not> is_transcription e)
          (trace (snd (extractTranscript w youtubeUrl videoId (initial fs dir)))))"
proof -
  let ?s1 = "snd (downloadAndCleanYtDlpTranscript w youtubeUrl videoId (initial fs dir))"
  let ?s1' = "snd (downloadAndCleanYtDlpTranscript w' youtubeUrl videoId (initial fs dir))"
  have run: "extractTranscript w youtubeUrl videoId (initial fs dir) =
      deepgram_fallback w youtubeUrl videoId ?s1"
    by (rule extract_fallback[OF assms(1-3)])
  have run': "extractTranscript w' youtubeUrl videoId (initial fs dir) =
      deepgram_fallback w' youtubeUrl videoId ?s1'"
    by (rule extract_fallback[OF assms(1,2,6)])
  have ok: "setup_ok w (transcripts_dir ?s1)" "setup_ok w' (transcripts_dir ?s1')"
    using assms(4,7) by (simp_all add: initial_def)
  have r: "fst (extractTranscript w youtubeUrl videoId (initial fs dir)) = Inr null_result"
    unfolding run by (rule fallback_failure_result[OF ok(1) assms(5)])
  have r': "fst (extractTranscript w' youtubeUrl videoId (initial fs dir)) = Inr null_result"
    unfolding run' by (rule fallback_failure_result[OF ok(2) assms(8)])
  have tr: "list_all (\<lambda>e. \<not> is_transcription e)
      (trace (snd (extractTranscript w youtubeUrl videoId (initial fs dir))))"
    if b: "before_transcription w"
  proof -
    obtain e1 where e1: "trace ?s1 =
        Console StartingYtDlpDownload # Exec (ytdlp_command youtubeUrl videoId) # e1"
        "list_all quiet e1"
      using caption_trace[of w youtubeUrl videoId "initial fs dir"] by (auto simp: initial_def)
    obtain e2 where e2: "trace (snd (deepgram_fallback w youtubeUrl videoId ?s1)) = trace ?s1 @ e2"
        "list_all (\<lambda>e. \<not> is_transcription e) e2"
      using fallback_early_trace[OF ok(1) b] by blast
    from e1 e2 quiet_no_transcription[OF e1(2)] show ?thesis
      unfolding run by simp
  qed
  from r r' tr show ?thesis by (simp add: null_result_def)
qed

theorem audio_error_exit_is_bare_deepgram_result_witness:
  "fst (extractTranscript
      (sample_world\<lparr>ytdlp_output := None, getInfo_result := Inl (Error ''Video unavailable'' None)\<rparr>)
      ''u'' ''v'' (initial Map.empty True)) =
     Inr \<lparr>transcript = None, speakers = None, method_tag = Deepgram, confidence = None,
          metadata = None\<rparr> \<and>
   getInfo_result (sample_world\<lparr>ytdlp_output := None, download_outcome := TimerFires\<rparr>) =
     Inr sample_details \<and>
   fst (extractTranscript
      (sample_world\<lparr>ytdlp_output := None, download_outcome := TimerFires\<rparr>)
      ''u'' ''v'' (initial Map.empty True)) =
   fst (extractTranscript
      (sample_world\<lparr>ytdlp_output := None, getInfo_result := Inl (Error ''Video unavailable'' None)\<rparr>)
      ''u'' ''v'' (initial Map.empty True)) \<and>
   list_all (\<lambda>e. \<not> is_transcription e)
     (trace (snd (extractTranscript
        (sample_world\<lparr>ytdlp_output := None, getInfo_result := Inl (Error ''Video unavailable'' None)\<rparr>)
        ''u'' ''v'' (initial Map.empty True))))"
proof -
  let ?w1 = "sample_world\<lparr>ytdlp_output := None, getInfo_result := Inl (Error ''Video unavailable'' None)\<rparr>"
  let ?w4 = "sample_world\<lparr>ytdlp_output := None, download_outcome := TimerFires\<rparr>"
  have u: "''u'' \<noteq> []" and v: "''v'' \<noteq> []" by simp_all
  have f: "audio_failure ?w1" "audio_failure ?w4" "before_transcription ?w1"
    by (simp_all add: run_eval)
  have cs: "fst (downloadAndCleanYtDlpTranscript ?w1 ''u'' ''v'' (initial Map.empty True)) = None"
    "fst (downloadAndCleanYtDlpTranscript ?w4 ''u'' ''v'' (initial Map.empty True)) = None"
    by (simp_all add: run_eval)
  have ss: "setup_ok ?w1 True" "setup_ok ?w4 True"
    by (simp_all add: run_eval)
  have g: "getInfo_result ?w4 = Inr sample_details"
    by (simp add: sample_world_def)
  from audio_error_exit_is_bare_deepgram_result [OF u v cs(1) ss(1) f(1) cs(2) ss(2) f(2)] f(3) g
  show ?thesis by blast
qed

subsection \<open>Temporary files\<close>

lemma safeDeleteFile_cleanup: "deleted_or_logged w p (safeDeleteFile w p s)"
  using safeDeleteFile_logged[of w p s] by (auto simp: deleted_or_logged_def)

lemma deleted_or_logged_mono:
  assumes "deleted_or_logged w p s" "files s' p = files s p" "prefix (trace s) (trace s')"
  shows "deleted_or_logged w p s'"
  using assms by (auto simp: deleted_or_logged_def prefix_def split: option.splits)

lemma audio_catch_cleanup: "deleted_or_logged w (audioFilePath v) (audio_catch w e v s)"
  unfolding audio_catch_def Let_def by (rule safeDeleteFile_cleanup)

lemma audio_catch_reports:
  "Console (ErrorInExtractTranscript e) \<in> set (trace (audio_catch w e v s))"
proof -
  let ?s1 = "emit (Console (ErrorInExtractTranscript e)) s"
  have "\<exists>s2. audio_catch w e v s = safeDeleteFile w (audioFilePath v) s2 \<and>
      prefix (trace ?s1) (trace s2)"
    by (auto simp: audio_catch_def Let_def split: thrown.splits)
  then obtain s2 where s2: "audio_catch w e v s = safeDeleteFile w (audioFilePath v) s2"
    "prefix (trace ?s1) (trace s2)" by blast
  from s2(2) safeDeleteFile_prefix[of s2 w "audioFilePath v"]
  have "prefix (trace ?s1) (trace (audio_catch w e v s))"
    unfolding s2(1) by (rule prefix_order.trans)
  then show ?thesis by (auto simp: prefix_def)
qed

lemma transcribe_audio_cleanup:
  "transcribe_audio w v d s = (Inr r, s') \<Longrightarrow> deleted_or_logged w (audioFilePath v) s'"
proof -
  assume a: "transcribe_audio w v d s = (Inr r, s')"
  then obtain s3 where "s' = emit (Console TranscribedWithDeepgram)
      (safeDeleteFile w (audioFilePath v) s3)"
    by (auto simp: transcribe_audio_def Let_def split: sum.splits option.splits)
  then show ?thesis
    using safeDeleteFile_cleanup[of w "audioFilePath v" s3]
    by (auto intro: deleted_or_logged_mono)
qed

lemma audio_try_cleanup:
  "audio_try w u v s = (Inr r, s') \<Longrightarrow> deleted_or_logged w (audioFilePath v) s'"
  by (auto simp: audio_try_def Let_def dest: transcribe_audio_cleanup
      split: sum.splits option.splits prod.splits if_splits)

lemma fallback_cleanup:
  assumes "setup_ok w (transcripts_dir s)"
  shows "deleted_or_logged w (audioFilePath v) (snd (deepgram_fallback w u v s))"
proof -
  from assms obtain s3 where s3: "deepgram_fallback w u v s =
       (case audio_try w u v s3 of
          (Inr r, s4) \<Rightarrow> (Inr r, s4)
        | (Inl e, s4) \<Rightarrow> (Inr null_result, audio_catch w e v s4))"
    using fallback_result by blast
  show ?thesis
  proof (cases "audio_try w u v s3")
    case (Pair r s4)
    then show ?thesis
      unfolding s3 using audio_try_cleanup[of w u v s3 _ s4] audio_catch_cleanup[of w v _ s4]
      by (cases r) auto
  qed
qed

lemma fallback_no_setup_trace:
  assumes "\<not> setup_ok w (transcripts_dir s)"
  shows "\<exists>evs. trace (snd (deepgram_fallback w u v s)) = trace s @ evs \<and>
     list_all (\<lambda>e. \<not> is_write_stream e) evs"
  using assms
  by (auto simp: setup_ok_def deepgram_fallback_def ensureTranscriptsDirectory_def Let_def
      split: option.splits)


lemma vtt_not_audio: "tempVttFile v \<noteq> audioFilePath v"
  by (simp add: tempVttFile_def audioFilePath_def path_join_def)

lemma transcribe_audio_files_other:
  "q \<noteq> audioFilePath v \<Longrightarrow> files (snd (transcribe_audio w v d s)) q = files s q"
  by (simp add: transcribe_audio_def Let_def safeDeleteFile_files split: sum.splits option.splits)

lemma audio_try_files_other:
  "q \<noteq> audioFilePath v \<Longrightarrow> files (snd (audio_try w u v s)) q = files s q"
proof -
  assume q: "q \<noteq> audioFilePath v"
  let ?s4 = "emit (Console DownloadingVideoAudio) (emit YtdlChooseFormat
     (emit (YtdlGetInfo u) (emit (Console FetchingVideoMetadata) s)))"
  let ?s5 = "snd (downloadAudio w u (audioFilePath v) ?s4)"
  have d: "files ?s5 q = files s q"
    using q by (simp add: downloadAudio_files split: download_outcome.splits option.splits)
  have t: "files (snd (transcribe_audio w v x ?s5)) q = files s q" for x
    using q d by (simp add: transcribe_audio_files_other)
  show ?thesis
    using d t
    by (cases "downloadAudio w u (audioFilePath v) ?s4")
       (auto simp: audio_try_def Let_def split: sum.splits option.splits)
qed

lemma fallback_files_other:
  assumes "q \<noteq> audioFilePath v"
  shows "files (snd (deepgram_fallback w u v s)) q = files s q"
proof (cases "setup_ok w (transcripts_dir s)")
  case True
  then obtain s3 where s3: "files s3 = files s" "deepgram_fallback w u v s =
       (case audio_try w u v s3 of
          (Inr r, s4) \<Rightarrow> (Inr r, s4)
        | (Inl e, s4) \<Rightarrow> (Inr null_result, audio_catch w e v s4))"
    using fallback_result by blast
  show ?thesis
  proof (cases "audio_try w u v s3")
    case (Pair r s4)
    with audio_try_files_other[OF assms, of w u s3] s3(1) have "files s4 q = files s q" by simp
    with Pair assms show ?thesis
      unfolding s3(2) by (cases r) (simp_all add: audio_catch_files)
  qed
next
  case False
  then show ?thesis
    by (auto simp: setup_ok_def deepgram_fallback_def ensureTranscriptsDirectory_def Let_def
        split: option.splits)
qed

lemma read_file_cong: "files s p = files s' p \<Longrightarrow> read_file f s p = read_file f s' p"
  by (simp add: read_file_def)

lemma transcribe_audio_unlink:
  assumes "files s (audioFilePath v) = files s' (audioFilePath v)"
  shows "fst (transcribe_audio (w\<lparr>unlink_fault := f\<rparr>) v d s) = fst (transcribe_audio w v d s')"
proof -
  have "read_file x (emit a (emit b s)) (audioFilePath v) =
      read_file x (emit a (emit b s')) (audioFilePath v)" for x a b
    using assms by (simp add: read_file_def)
  then show ?thesis
    by (simp add: transcribe_audio_def Let_def split: sum.splits option.splits)
qed

lemma downloadAudio_unlink:
  "fst (downloadAudio (w\<lparr>unlink_fault := f\<rparr>) u p s) = fst (downloadAudio w u p s')"
  by (simp add: downloadAudio_fst)

lemma audio_try_fst:
  "fst (audio_try w u v s) =
     (case getInfo_result w of
        Inl e \<Rightarrow> Inl e
      | Inr d \<Rightarrow>
          (case chooseFormat_result w of
             Inl e \<Rightarrow> Inl e
           | Inr audioFormat \<Rightarrow>
               if \<not> audioFormat then Inl no_audio_format
               else
                 (case fst (downloadAudio w u (audioFilePath v)
                        (emit (Console DownloadingVideoAudio) (emit YtdlChooseFormat
                          (emit (YtdlGetInfo u) (emit (Console FetchingVideoMetadata) s))))) of
                    Some e \<Rightarrow> Inl e
                  | None \<Rightarrow>
                      fst (transcribe_audio w v d
                        (snd (downloadAudio w u (audioFilePath v)
                          (emit (Console DownloadingVideoAudio) (emit YtdlChooseFormat
                            (emit (YtdlGetInfo u) (emit (Console FetchingVideoMetadata) s)))))))))) "
  by (simp add: audio_try_def Let_def split: sum.splits option.splits prod.splits)

lemma audio_try_unlink:
  assumes "files s (audioFilePath v) = files s' (audioFilePath v)"
  shows "fst (audio_try (w\<lparr>unlink_fault := f\<rparr>) u v s) = fst (audio_try w u v s')"
proof -
  let ?t = "\<lambda>s. emit (Console DownloadingVideoAudio) (emit YtdlChooseFormat
     (emit (YtdlGetInfo u) (emit (Console FetchingVideoMetadata) s)))"
  have d: "fst (downloadAudio (w\<lparr>unlink_fault := f\<rparr>) u (audioFilePath v) (?t s)) =
      fst (downloadAudio w u (audioFilePath v) (?t s'))"
    by (rule downloadAudio_unlink)
  have fl: "files (snd (downloadAudio (w\<lparr>unlink_fault := f\<rparr>) u (audioFilePath v) (?t s)))
       (audioFilePath v) =
     files (snd (downloadAudio w u (audioFilePath v) (?t s'))) (audioFilePath v)"
    using assms by (simp add: downloadAudio_files split: download_outcome.splits option.splits)
  have t: "fst (transcribe_audio (w\<lparr>unlink_fault := f\<rparr>) v x
       (snd (downloadAudio (w\<lparr>unlink_fault := f\<rparr>) u (audioFilePath v) (?t s)))) =
     fst (transcribe_audio w v x (snd (downloadAudio w u (audioFilePath v) (?t s'))))" for x
    by (rule transcribe_audio_unlink[OF fl])
  show ?thesis
    unfolding audio_try_fst d t by (simp split: sum.splits)
qed

lemma setup_ok_unlink [simp]: "setup_ok (w\<lparr>unlink_fault := f\<rparr>) dir = setup_ok w dir"
  by (simp add: setup_ok_def)

lemma fallback_unlink:
  assumes "files s (audioFilePath v) = files s' (audioFilePath v)"
    and "transcripts_dir s = transcripts_dir s'"
  shows "fst (deepgram_fallback (w\<lparr>unlink_fault := f\<rparr>) u v s) = fst (deepgram_fallback w u v s')"
proof (cases "setup_ok w (transcripts_dir s)")
  case True
  let ?w = "w\<lparr>unlink_fault := f\<rparr>"
  from True obtain s3 where s3: "files s3 = files s" "deepgram_fallback ?w u v s =
       (case audio_try ?w u v s3 of
          (Inr r, s4) \<Rightarrow> (Inr r, s4)
        | (Inl e, s4) \<Rightarrow> (Inr null_result, audio_catch ?w e v s4))"
    using fallback_result[of ?w s u v] by auto
  from True assms(2) obtain s3' where s3': "files s3' = files s'" "deepgram_fallback w u v s' =
       (case audio_try w u v s3' of
          (Inr r, s4) \<Rightarrow> (Inr r, s4)
        | (Inl e, s4) \<Rightarrow> (Inr null_result, audio_catch w e v s4))"
    using fallback_result[of w s' u v] by auto
  have "fst (audio_try ?w u v s3) = fst (audio_try w u v s3')"
    by (rule audio_try_unlink) (simp add: s3(1) s3'(1) assms(1))
  then show ?thesis
    unfolding s3(2) s3'(2)
    by (cases "audio_try ?w u v s3"; cases "audio_try w u v s3'") (auto split: sum.splits)
next
  case False
  with assms(2) show ?thesis
    by (auto simp: setup_ok_def deepgram_fallback_def ensureTranscriptsDirectory_def Let_def
        split: option.splits)
qed

lemma ytdlp_try_unlink: "ytdlp_try (w\<lparr>unlink_fault := f\<rparr>) u v s = ytdlp_try w u v s"
  by (simp add: ytdlp_try_def Let_def split: option.splits sum.splits)

lemma extract_unlink:
  "fst (extractTranscript (w\<lparr>unlink_fault := f\<rparr>) u v s) = fst (extractTranscript w u v s)"
proof (cases "u = [] \<or> v = []")
  case True
  then show ?thesis by (auto simp: extractTranscript_def)
next
  case False
  then have u: "u \<noteq> []" and v: "v \<noteq> []" by simp_all
  let ?w = "w\<lparr>unlink_fault := f\<rparr>"
  have cap: "fst (downloadAndCleanYtDlpTranscript ?w u v s) =
      fst (downloadAndCleanYtDlpTranscript w u v s)"
    by (simp add: caption_fst ytdlp_try_unlink)
  show ?thesis
  proof (cases "fst (downloadAndCleanYtDlpTranscript w u v s)")
    case None
    with cap have n: "fst (downloadAndCleanYtDlpTranscript ?w u v s) = None" by simp
    have "fst (deepgram_fallback ?w u v (snd (downloadAndCleanYtDlpTranscript ?w u v s))) =
        fst (deepgram_fallback w u v (snd (downloadAndCleanYtDlpTranscript w u v s)))"
      by (rule fallback_unlink) (simp_all add: caption_files vtt_not_audio[symmetric])
    then show ?thesis
      by (simp add: extract_fallback[OF u v None] extract_fallback[OF u v n])
  next
    case (Some t)
    with cap have n: "fst (downloadAndCleanYtDlpTranscript ?w u v s) = Some t" by simp
    show ?thesis
      by (simp add: extract_captions[OF u v Some] extract_captions[OF u v n]
          captions_result_fst)
  qed
qed

subsection \<open>Write streams that are still opening\<close>

lemma safeDeleteFile_still_opening [simp]:
  "still_opening (safeDeleteFile w p s) = still_opening s"
  by (simp add: safeDeleteFile_def Let_def split: option.splits)

lemma ytdlp_try_still_opening [simp]:
  "still_opening (snd (ytdlp_try w u v s)) = still_opening s"
  by (simp add: ytdlp_try_def Let_def split: option.splits sum.splits)

lemma ytdlp_catch_still_opening [simp]: "still_opening (ytdlp_catch e s) = still_opening s"
  by (simp add: ytdlp_catch_def Let_def split: thrown.splits option.splits)

lemma caption_still_opening [simp]:
  "still_opening (snd (downloadAndCleanYtDlpTranscript w u v s)) = still_opening s"
  by (simp add: caption_snd split: sum.splits)

lemma captions_result_still_opening [simp]:
  "still_opening (snd (captions_result w u t s)) = still_opening s"
  by (simp add: captions_result_def Let_def split: sum.splits)

lemma ensure_still_opening [simp]:
  "still_opening (snd (ensureTranscriptsDirectory w s)) = still_opening s"
  by (simp add: ensureTranscriptsDirectory_def Let_def split: option.splits)

lemma transcribe_audio_still_opening [simp]:
  "still_opening (snd (transcribe_audio w v d s)) = still_opening s"
  by (simp add: transcribe_audio_def Let_def split: sum.splits option.splits)

lemma audio_catch_still_opening [simp]:
  "still_opening (audio_catch w e v s) = still_opening s"
  by (simp add: audio_catch_def Let_def split: thrown.splits)

lemma audio_try_still_opening:
  assumes "\<And>e. download_outcome w \<noteq> YtdlThrows e"
  shows "still_opening (snd (audio_try w u v s)) = still_opening s"
proof -
  let ?s4 = "emit (Console DownloadingVideoAudio) (emit YtdlChooseFormat
     (emit (YtdlGetInfo u) (emit (Console FetchingVideoMetadata) s)))"
  let ?s5 = "snd (downloadAudio w u (audioFilePath v) ?s4)"
  have d: "still_opening ?s5 = still_opening s"
    using assms by (simp add: downloadAudio_still_opening split: download_outcome.splits)
  have t: "still_opening (snd (transcribe_audio w v x ?s5)) = still_opening s" for x
    using d by simp
  show ?thesis
    using d t
    by (cases "downloadAudio w u (audioFilePath v) ?s4")
       (auto simp: audio_try_def Let_def split: sum.splits option.splits)
qed

lemma fallback_still_opening:
  assumes "\<And>e. download_outcome w \<noteq> YtdlThrows e"
  shows "still_opening (snd (deepgram_fallback w u v s)) = still_opening s"
proof -
  have a: "still_opening (snd (audio_try w u v (snd (ensureTranscriptsDirectory w
      (emit (DeepgramCreateClient k) (emit (Console FallingBackToDeepgram) s)))))) =
      still_opening s" for k
    using audio_try_still_opening[OF assms] by simp
  show ?thesis
  proof (cases "env_DEEPGRAM_API_KEY w")
    case None
    then show ?thesis by (simp add: deepgram_fallback_def Let_def)
  next
    case (Some k)
    show ?thesis
    proof (cases "ensureTranscriptsDirectory w
        (emit (DeepgramCreateClient k) (emit (Console FallingBackToDeepgram) s))")
      case (Pair f s3)
      then have s3: "still_opening s3 = still_opening s"
        using ensure_still_opening[of w
            "emit (DeepgramCreateClient k) (emit (Console FallingBackToDeepgram) s)"]
        by simp
      show ?thesis
      proof (cases "audio_try w u v s3")
        case (Pair r s4)
        with a[of k] \<open>ensureTranscriptsDirectory w _ = (f, s3)\<close>
        have s4: "still_opening s4 = still_opening s" by simp
        from Some \<open>ensureTranscriptsDirectory w _ = (f, s3)\<close> Pair s3 s4 show ?thesis
          by (auto simp: deepgram_fallback_def Let_def split: sum.splits option.splits)
      qed
    qed
  qed
qed

lemma extract_still_opening:
  assumes "\<And>e. download_outcome w \<noteq> YtdlThrows e"
  shows "still_opening (snd (extractTranscript w u v s)) = still_opening s"
proof (cases "u = [] \<or> v = []")
  case True
  then show ?thesis by (auto simp: extractTranscript_def)
next
  case False
  then have u: "u \<noteq> []" and v: "v \<noteq> []" by simp_all
  show ?thesis
  proof (cases "fst (downloadAndCleanYtDlpTranscript w u v s)")
    case None
    show ?thesis
      by (simp add: extract_fallback[OF u v None] fallback_still_opening[OF assms])
  next
    case (Some t)
    show ?thesis
      by (simp add: extract_captions[OF u v Some])
  qed
qed

lemma after_return_nothing_opening: "still_opening s = [] \<Longrightarrow> after_return w s = s"
  by (simp add: after_return_def split: option.splits)

subsection \<open>The download timeout\<close>

lemma audio_try_timeout:
  assumes "getInfo_result w = Inr d" "chooseFormat_result w = Inr True"
    "download_outcome w = TimerFires"
  shows "audio_try w u v s =
     (Inl download_timeout,
      snd (downloadAudio w u (audioFilePath v)
        (emit (Console DownloadingVideoAudio) (emit YtdlChooseFormat
          (emit (YtdlGetInfo u) (emit (Console FetchingVideoMetadata) s))))))"
proof -
  let ?s4 = "emit (Console DownloadingVideoAudio) (emit YtdlChooseFormat
          (emit (YtdlGetInfo u) (emit (Console FetchingVideoMetadata) s)))"
  have "fst (downloadAudio w u (audioFilePath v) ?s4) = Some download_timeout"
    using downloadAudio_timeout[OF assms(3)] by blast
  then show ?thesis
    using assms(1,2)
    by (cases "downloadAudio w u (audioFilePath v) ?s4") (simp add: audio_try_def Let_def)
qed

text \<open>
  C4 (amended). When the audio download has not ended within five minutes, the timer
  destroys the download stream and the write stream, and the download fails with the
  timeout error; \<^verbatim>\<open>extractTranscript\<close> reports the error and returns the null result.
  Afterwards the audio file is gone, unless its deletion failed; the failure is then
  reported on the console. No write stream is still opening a file when the run returns,
  so the disk stays as the run leaves it.
\<close>

theorem download_timeout_aborts_streams_and_deletes:
  assumes "youtubeUrl \<noteq> []" and "videoId \<noteq> []"
    and "fst (downloadAndCleanYtDlpTranscript w youtubeUrl videoId (initial fs dir)) = None"
    and "setup_ok w dir"
    and "getInfo_result w = Inr d" and "chooseFormat_result w = Inr True"
    and "download_outcome w = TimerFires"
  shows "fst (downloadAudio w youtubeUrl (audioFilePath videoId) s) = Some download_timeout \<and>
     trace (snd (downloadAudio w youtubeUrl (audioFilePath videoId) s)) =
       trace s @ [CreateWriteStream (audioFilePath videoId), YtdlDownload youtubeUrl,
                  DestroyDownloadStream, DestroyAudioStream] \<and>
     DestroyDownloadStream \<in> set (trace (snd (extractTranscript w youtubeUrl videoId (initial fs dir)))) \<and>
     DestroyAudioStream \<in> set (trace (snd (extractTranscript w youtubeUrl videoId (initial fs dir)))) \<and>
     Console (ErrorInExtractTranscript download_timeout)
       \<in> set (trace (snd (extractTranscript w youtubeUrl videoId (initial fs dir)))) \<and>
     fst (extractTranscript w youtubeUrl videoId (initial fs dir)) = Inr null_result \<and>
     deleted_or_logged w (audioFilePath videoId)
       (snd (extractTranscript w youtubeUrl videoId (initial fs dir))) \<and>
     (unlink_fault w (audioFilePath videoId) = None \<longrightarrow>
        files (snd (extractTranscript w youtubeUrl videoId (initial fs dir)))
          (audioFilePath videoId) = None) \<and>
     after_return w (snd (extractTranscript w youtubeUrl videoId (initial fs dir))) =
       snd (extractTranscript w youtubeUrl videoId (initial fs dir))"
proof -
  let ?s1 = "snd (downloadAndCleanYtDlpTranscript w youtubeUrl videoId (initial fs dir))"
  let ?run = "extractTranscript w youtubeUrl videoId (initial fs dir)"
  have run: "?run = deepgram_fallback w youtubeUrl videoId ?s1"
    by (rule extract_fallback[OF assms(1-3)])
  have "still_opening (snd ?run) = still_opening (initial fs dir)"
    by (rule extract_still_opening) (simp add: assms(7))
  then have settled: "after_return w (snd ?run) = snd ?run"
    by (intro after_return_nothing_opening) (simp add: initial_def)
  have ok: "setup_ok w (transcripts_dir ?s1)"
    using assms(4) by (simp add: initial_def)
  then obtain s3 where s3: "deepgram_fallback w youtubeUrl videoId ?s1 =
       (case audio_try w youtubeUrl videoId s3 of
          (Inr r, s4) \<Rightarrow> (Inr r, s4)
        | (Inl e, s4) \<Rightarrow> (Inr null_result, audio_catch w e videoId s4))"
    using fallback_result by blast
  let ?s4 = "emit (Console DownloadingVideoAudio) (emit YtdlChooseFormat
          (emit (YtdlGetInfo youtubeUrl) (emit (Console FetchingVideoMetadata) s3)))"
  let ?s5 = "snd (downloadAudio w youtubeUrl (audioFilePath videoId) ?s4)"
  have final: "?run = (Inr null_result, audio_catch w download_timeout videoId ?s5)"
    unfolding run s3 audio_try_timeout[OF assms(5-7)] by simp
  note dl = downloadAudio_timeout[OF assms(7)]
  have "set (trace ?s5) \<subseteq> set (trace (audio_catch w download_timeout videoId ?s5))"
    using audio_catch_prefix[of ?s5 w download_timeout videoId] by (auto simp: prefix_def)
  moreover have "DestroyDownloadStream \<in> set (trace ?s5)" "DestroyAudioStream \<in> set (trace ?s5)"
    using dl[of youtubeUrl "audioFilePath videoId" ?s4] by simp_all
  ultimately have destroyed:
    "DestroyDownloadStream \<in> set (trace (snd ?run))" "DestroyAudioStream \<in> set (trace (snd ?run))"
    unfolding final by auto
  have reported: "Console (ErrorInExtractTranscript download_timeout) \<in> set (trace (snd ?run))"
    unfolding final by (simp add: audio_catch_reports)
  have cleanup: "deleted_or_logged w (audioFilePath videoId) (snd ?run)"
    unfolding final by (simp add: audio_catch_cleanup)
  then have gone: "files (snd ?run) (audioFilePath videoId) = None"
    if "unlink_fault w (audioFilePath videoId) = None"
    using that by (simp add: deleted_or_logged_def)
  from dl[of youtubeUrl "audioFilePath videoId" s] destroyed reported final cleanup gone
    settled
  show ?thesis by simp
qed

theorem download_timeout_aborts_streams_and_deletes_witness:
  "fst (downloadAudio timeout_world ''u'' (audioFilePath ''v'') (initial Map.empty True))
     = Some (Error ''Download timeout after 5 minutes'' None) \<and>
   DestroyDownloadStream
     \<in> set (trace (snd (extractTranscript timeout_world ''u'' ''v'' (initial Map.empty True)))) \<and>
   DestroyAudioStream
     \<in> set (trace (snd (extractTranscript timeout_world ''u'' ''v'' (initial Map.empty True)))) \<and>
   fst (extractTranscript timeout_world ''u'' ''v'' (initial Map.empty True)) = Inr null_result \<and>
   files (snd (extractTranscript timeout_world ''u'' ''v'' (initial Map.empty True)))
     (audioFilePath ''v'') = None \<and>
   files (after_return timeout_world
            (snd (extractTranscript timeout_world ''u'' ''v'' (initial Map.empty True))))
     (audioFilePath ''v'') = None"
proof -
  have u: "''u'' \<noteq> []" and v: "''v'' \<noteq> []" by simp_all
  have c: "fst (downloadAndCleanYtDlpTranscript timeout_world ''u'' ''v''
      (initial Map.empty True)) = None"
    by (simp add: run_eval)
  have s: "setup_ok timeout_world True" by (simp add: run_eval)
  have w: "getInfo_result timeout_world = Inr sample_details"
    "chooseFormat_result timeout_world = Inr True" "download_outcome timeout_world = TimerFires"
    "unlink_fault timeout_world (audioFilePath ''v'') = None"
    by (simp_all add: timeout_world_def sample_world_def)
  from download_timeout_aborts_streams_and_deletes [OF u v c s w(1-3), of "initial Map.empty True"]
    w(4)
  show ?thesis by (simp add: download_timeout_def)
qed

text \<open>
  Without the exception for a failed deletion the statement of C4 does not hold: in this
  run the download times out, the audio file is not on disk before the run, the deletion
  fails, and the file is on disk after the run.
\<close>

theorem download_timeout_file_remains_counterexample:
  "download_outcome (timeout_world\<lparr>unlink_fault := (\<lambda>p. Some EPERM)\<rparr>) = TimerFires \<and>
   files (initial Map.empty True) (audioFilePath ''v'') = None \<and>
   fst (downloadAudio (timeout_world\<lparr>unlink_fault := (\<lambda>p. Some EPERM)\<rparr>) ''u''
          (audioFilePath ''v'') (initial Map.empty True)) = Some download_timeout \<and>
   DestroyDownloadStream \<in> set (trace (snd (extractTranscript
       (timeout_world\<lparr>unlink_fault := (\<lambda>p. Some EPERM)\<rparr>) ''u'' ''v''
       (initial Map.empty True)))) \<and>
   fst (extractTranscript (timeout_world\<lparr>unlink_fault := (\<lambda>p. Some EPERM)\<rparr>) ''u'' ''v''
          (initial Map.empty True)) = Inr null_result \<and>
   files (snd (extractTranscript (timeout_world\<lparr>unlink_fault := (\<lambda>p. Some EPERM)\<rparr>) ''u'' ''v''
          (initial Map.empty True))) (audioFilePath ''v'') = Some [1, 2, 3] \<and>
   files (after_return (timeout_world\<lparr>unlink_fault := (\<lambda>p. Some EPERM)\<rparr>)
           (snd (extractTranscript (timeout_world\<lparr>unlink_fault := (\<lambda>p. Some EPERM)\<rparr>) ''u'' ''v''
              (initial Map.empty True)))) (audioFilePath ''v'') = Some [1, 2, 3]"
  by (simp add: run_eval after_return_def)

subsection \<open>Cleaning up on every exit\<close>

lemma write_stream_is_audio: "is_write_stream e \<Longrightarrow> is_audio_call e"
  by (cases e) simp_all

lemma quiet_no_write_stream: "list_all quiet evs \<Longrightarrow> list_all (\<lambda>e. \<not> is_write_stream e) evs"
  unfolding list_all_iff quiet_def using write_stream_is_audio by blast

lemma no_audio_no_write_stream:
  "list_all (\<lambda>e. \<not> is_audio_call e) evs \<Longrightarrow> list_all (\<lambda>e. \<not> is_write_stream e) evs"
  unfolding list_all_iff using write_stream_is_audio by blast

lemma caption_cleanup:
  "deleted_or_logged w (tempVttFile v) (snd (downloadAndCleanYtDlpTranscript w u v s))"
  unfolding caption_snd by (rule safeDeleteFile_cleanup)

text \<open>
  What the clean-up has done by the time \<^verbatim>\<open>extractTranscript\<close> returns. The exit for
  missing arguments creates no file. On every other exit the subtitle file is off the
  disk, and so is the audio file when the run created a write stream, unless the deletion
  itself failed and the failure was reported on the console. Failures of deletions never
  change what the run returns or throws. This is about the disk at the moment of the
  return: a file that a write stream opens later is not covered.
\<close>

lemma temporary_files_dealt_with_at_return:
  "(youtubeUrl = [] \<or> videoId = [] \<longrightarrow>
      extractTranscript w youtubeUrl videoId (initial fs dir) =
        (Inl required_parameters, initial fs dir)) \<and>
   (youtubeUrl \<noteq> [] \<and> videoId \<noteq> [] \<longrightarrow>
      deleted_or_logged w (tempVttFile videoId)
        (snd (extractTranscript w youtubeUrl videoId (initial fs dir))) \<and>
      ((\<exists>e \<in> set (trace (snd (extractTranscript w youtubeUrl videoId (initial fs dir)))).
          is_write_stream e) \<longrightarrow>
       deleted_or_logged w (audioFilePath videoId)
         (snd (extractTranscript w youtubeUrl videoId (initial fs dir))))) \<and>
   (\<forall>f. fst (extractTranscript (w\<lparr>unlink_fault := f\<rparr>) youtubeUrl videoId (initial fs dir)) =
        fst (extractTranscript w youtubeUrl videoId (initial fs dir)))"
proof (intro conjI impI allI)
  assume "youtubeUrl = [] \<or> videoId = []"
  then show "extractTranscript w youtubeUrl videoId (initial fs dir) =
        (Inl required_parameters, initial fs dir)"
    by (auto simp: extractTranscript_def)
next
  fix f
  show "fst (extractTranscript (w\<lparr>unlink_fault := f\<rparr>) youtubeUrl videoId (initial fs dir)) =
        fst (extractTranscript w youtubeUrl videoId (initial fs dir))"
    by (rule extract_unlink)
next
  assume "youtubeUrl \<noteq> [] \<and> videoId \<noteq> []"
  then have u: "youtubeUrl \<noteq> []" and v: "videoId \<noteq> []" by simp_all
  let ?cap = "downloadAndCleanYtDlpTranscript w youtubeUrl videoId (initial fs dir)"
  let ?run = "extractTranscript w youtubeUrl videoId (initial fs dir)"
  obtain e1 where e1: "trace (snd ?cap) =
      Console StartingYtDlpDownload # Exec (ytdlp_command youtubeUrl videoId) # e1"
      "list_all quiet e1"
    using caption_trace[of w youtubeUrl videoId "initial fs dir"] by (auto simp: initial_def)
  have cap_quiet: "list_all (\<lambda>e. \<not> is_write_stream e) (trace (snd ?cap))"
    using e1 quiet_no_write_stream[OF e1(2)] by simp
  have vtt: "deleted_or_logged w (tempVttFile videoId) (snd ?cap)"
    by (rule caption_cleanup)
  show "deleted_or_logged w (tempVttFile videoId) (snd ?run)"
  proof (cases "fst ?cap")
    case None
    have "files (snd ?run) (tempVttFile videoId) = files (snd ?cap) (tempVttFile videoId)"
      unfolding extract_fallback[OF u v None]
      by (rule fallback_files_other) (rule vtt_not_audio)
    moreover have "prefix (trace (snd ?cap)) (trace (snd ?run))"
      unfolding extract_fallback[OF u v None] by (rule fallback_prefix)
    ultimately show ?thesis using vtt by (rule deleted_or_logged_mono[rotated])
  next
    case (Some t)
    have "files (snd ?run) (tempVttFile videoId) = files (snd ?cap) (tempVttFile videoId)"
      by (simp add: extract_captions[OF u v Some])
    moreover have "prefix (trace (snd ?cap)) (trace (snd ?run))"
      using captions_result_trace[of w youtubeUrl t "snd ?cap"]
      by (auto simp: extract_captions[OF u v Some] prefix_def)
    ultimately show ?thesis using vtt by (rule deleted_or_logged_mono[rotated])
  qed
  show "deleted_or_logged w (audioFilePath videoId) (snd ?run)"
    if opened: "\<exists>e \<in> set (trace (snd ?run)). is_write_stream e"
  proof (cases "fst ?cap")
    case (Some t)
    obtain e2 where e2: "trace (snd (captions_result w youtubeUrl t (snd ?cap))) =
        trace (snd ?cap) @ e2" "list_all (\<lambda>e. \<not> is_audio_call e) e2"
      using captions_result_trace by blast
    have "list_all (\<lambda>e. \<not> is_write_stream e) (trace (snd ?run))"
      using cap_quiet e2(1) no_audio_no_write_stream[OF e2(2)]
      by (simp add: extract_captions[OF u v Some])
    with opened show ?thesis by (auto simp: list_all_iff)
  next
    case None
    note run = extract_fallback[OF u v None]
    show ?thesis
    proof (cases "setup_ok w (transcripts_dir (snd ?cap))")
      case True
      then show ?thesis unfolding run by (rule fallback_cleanup)
    next
      case False
      then obtain e2 where e2: "trace (snd (deepgram_fallback w youtubeUrl videoId (snd ?cap))) =
          trace (snd ?cap) @ e2" "list_all (\<lambda>e. \<not> is_write_stream e) e2"
        using fallback_no_setup_trace by blast
      have "list_all (\<lambda>e. \<not> is_write_stream e) (trace (snd ?run))"
        using cap_quiet e2 by (simp add: run)
      with opened show ?thesis by (auto simp: list_all_iff)
    qed
  qed
qed

text \<open>
  Unless \<^verbatim>\<open>ytdl(...)\<close> throws, no write stream is still opening a file when the run
  returns, so the disk stays as the clean-up leaves it.
\<close>

lemma temporary_files_dealt_with_afterwards:
  assumes "youtubeUrl \<noteq> []" and "videoId \<noteq> []"
    and "\<And>e. download_outcome w \<noteq> YtdlThrows e"
  shows "deleted_or_logged w (tempVttFile videoId)
       (after_return w (snd (extractTranscript w youtubeUrl videoId (initial fs dir)))) \<and>
     ((\<exists>e \<in> set (trace (snd (extractTranscript w youtubeUrl videoId (initial fs dir)))).
         is_write_stream e) \<longrightarrow>
      deleted_or_logged w (audioFilePath videoId)
        (after_return w (snd (extractTranscript w youtubeUrl videoId (initial fs dir)))))"
proof -
  let ?run = "extractTranscript w youtubeUrl videoId (initial fs dir)"
  have "still_opening (snd ?run) = still_opening (initial fs dir)"
    by (rule extract_still_opening) (rule assms(3))
  then have "after_return w (snd ?run) = snd ?run"
    by (intro after_return_nothing_opening) (simp add: initial_def)
  with temporary_files_dealt_with_at_return[of youtubeUrl videoId w fs dir] assms(1,2)
  show ?thesis by simp
qed

text \<open>
  C5. Every temporary file created during a run is to be deleted before the run returns,
  on every exit, a failed and logged deletion apart. The exit on which \<^verbatim>\<open>ytdl(...)\<close>
  throws in \<^verbatim>\<open>downloadAudio\<close> does not do this. In the run below no audio file is on
  disk before, and no deletion fails. The write stream is created and the call throws; the
  catch block looks for the audio file, finds none yet, unlinks nothing and logs nothing,
  and the run returns the null result. The write stream, still opening at the return, then
  opens its file: the audio file created by the run is on disk afterwards, empty, neither
  deleted nor reported.
\<close>

theorem ytdl_throw_leaves_audio_file:
  "files (initial Map.empty True) (audioFilePath ''v'') = None \<and>
   unlink_fault ytdl_throws_world (audioFilePath ''v'') = None \<and>
   fst (extractTranscript ytdl_throws_world ''u'' ''v'' (initial Map.empty True)) =
     Inr null_result \<and>
   CreateWriteStream (audioFilePath ''v'')
     \<in> set (trace (snd (extractTranscript ytdl_throws_world ''u'' ''v'' (initial Map.empty True)))) \<and>
   ExistsSync (audioFilePath ''v'')
     \<in> set (trace (snd (extractTranscript ytdl_throws_world ''u'' ''v'' (initial Map.empty True)))) \<and>
   UnlinkSync (audioFilePath ''v'')
     \<notin> set (trace (snd (extractTranscript ytdl_throws_world ''u'' ''v'' (initial Map.empty True)))) \<and>
   files (snd (extractTranscript ytdl_throws_world ''u'' ''v'' (initial Map.empty True)))
     (audioFilePath ''v'') = None \<and>
   still_opening (snd (extractTranscript ytdl_throws_world ''u'' ''v'' (initial Map.empty True))) =
     [audioFilePath ''v''] \<and>
   files (after_return ytdl_throws_world
            (snd (extractTranscript ytdl_throws_world ''u'' ''v'' (initial Map.empty True))))
     (audioFilePath ''v'') = Some [] \<and>
   \<not> deleted_or_logged ytdl_throws_world (audioFilePath ''v'')
       (after_return ytdl_throws_world
          (snd (extractTranscript ytdl_throws_world ''u'' ''v'' (initial Map.empty True))))"
  by (simp add: run_eval after_return_def)

end
